theory Spec2Isabelle
  imports Complex_Main "HOL-Library.Sublist"
begin

section \<open>Conventions of the embedding\<close>

text \<open>
  The program is TypeScript. A JavaScript string is modelled as a \<^typ>\<open>string\<close>, one
  \<^typ>\<open>char\<close> per code unit, so the model covers the code units \<open>0x00 .. 0xFF\<close>.
  A \<open>number\<close> that the code uses as an offset, an index, a count or a time is an
  \<^typ>\<open>int\<close>; a confidence score is a \<^typ>\<open>rat\<close>. An optional property
  (\<open>x?: T\<close>, or \<open>T | null\<close>) is an \<open>option\<close>. Field names follow the source; where
  two interfaces share a field name, the name carries a short prefix of its interface.
\<close>

type_synonym NodeId = string

subsection \<open>String helpers of the JavaScript runtime\<close>

text \<open>The white space of \<open>String.prototype.trim\<close> and of the regular-expression class
  \<open>\s\<close>, restricted to the code units of the model: TAB, LF, VT, FF, CR, SP, NBSP.\<close>

definition isWhiteSpace :: "char \<Rightarrow> bool" where
  "isWhiteSpace c \<longleftrightarrow>
     c = CHR 0x09 \<or> c = CHR 0x0A \<or> c = CHR 0x0B \<or> c = CHR 0x0C \<or> c = CHR 0x0D \<or>
     c = CHR 0x20 \<or> c = CHR 0xA0"

definition trim :: "string \<Rightarrow> string" where
  "trim s = rev (dropWhile isWhiteSpace (rev (dropWhile isWhiteSpace s)))"

text \<open>\<open>Array.prototype.join(sep)\<close> on an array of strings.\<close>

fun join :: "string \<Rightarrow> string list \<Rightarrow> string" where
  "join sep [] = []"
| "join sep [x] = x"
| "join sep (x # y # ys) = x @ sep @ join sep (y # ys)"

text \<open>\<open>Array.prototype.slice(start)\<close> with an integral \<open>start\<close>: a negative start
  counts from the end, and both directions are clamped to the array.\<close>

definition slice_from :: "'a list \<Rightarrow> int \<Rightarrow> 'a list" where
  "slice_from xs start =
     (let len = int (length xs);
          k = (if start < 0 then max (len + start) 0 else min start len)
      in drop (nat k) xs)"


subsection \<open>Regular expressions\<close>

text \<open>
  The patterns of the program are written in the fragment of the RegExp language below.
  \<open>matches\<close> is the backtracking matcher of the language specification as a list of
  successes: the ways in which the pattern can match at the current position, in the
  order in which backtracking tries them (a greedy quantifier tries one more iteration
  before it tries to stop; an alternation tries its left branch first). A matcher state is
  the text before the position (reversed), the text from the position on, and the
  captures recorded so far (the latest first).
\<close>

datatype CharClass =
    OrdinalDigit            \<comment> \<open>\<open>[1-3]\<close>\<close>
  | Space                   \<comment> \<open>\<open>\s\<close>\<close>
  | Letter                  \<comment> \<open>\<open>[A-Za-z]\<close>\<close>
  | Digit                   \<comment> \<open>\<open>\d\<close>\<close>
  | Lit char                \<comment> \<open>a literal character\<close>
  | LitI char               \<comment> \<open>a literal character under the flag \<open>i\<close>\<close>
  | Union CharClass CharClass

datatype Regex =
    Eps
  | Class CharClass
  | Seq Regex Regex
  | Alt Regex Regex
  | Optional Regex          \<comment> \<open>\<open>r?\<close>\<close>
  | Star Regex              \<comment> \<open>\<open>r*\<close>\<close>
  | Group nat Regex         \<comment> \<open>the capturing group of that number\<close>
  | WordBoundary            \<comment> \<open>\<open>\b\<close>\<close>

definition Plus :: "Regex \<Rightarrow> Regex" where
  "Plus r = Seq r (Star r)"

definition isLetter :: "char \<Rightarrow> bool" where
  "isLetter c \<longleftrightarrow> c \<in> set ''abcdefghijklmnopqrstuvwxyzABCDEFGHIJKLMNOPQRSTUVWXYZ''"

definition isDigit :: "char \<Rightarrow> bool" where
  "isDigit c \<longleftrightarrow> c \<in> set ''0123456789''"

text \<open>The word characters of \<open>\b\<close>: \<open>[A-Za-z0-9_]\<close>.\<close>

definition isWordChar :: "char \<Rightarrow> bool" where
  "isWordChar c \<longleftrightarrow> isLetter c \<or> isDigit c \<or> c = CHR ''_''"

text \<open>Case folding of the flag \<open>i\<close> (without the flag \<open>u\<close>): a code unit from
  \<open>0x80\<close> on never folds to an ASCII character, so against an ASCII literal only the
  ASCII letters fold.\<close>

definition asciiUpper :: "char \<Rightarrow> char" where
  "asciiUpper c =
     (case map_of (zip ''abcdefghijklmnopqrstuvwxyz'' ''ABCDEFGHIJKLMNOPQRSTUVWXYZ'') c of
        None \<Rightarrow> c | Some u \<Rightarrow> u)"

fun in_class :: "CharClass \<Rightarrow> char \<Rightarrow> bool" where
  "in_class OrdinalDigit c \<longleftrightarrow> c \<in> set ''123''"
| "in_class Space c \<longleftrightarrow> isWhiteSpace c"
| "in_class Letter c \<longleftrightarrow> isLetter c"
| "in_class Digit c \<longleftrightarrow> isDigit c"
| "in_class (Lit x) c \<longleftrightarrow> c = x"
| "in_class (LitI x) c \<longleftrightarrow> asciiUpper c = asciiUpper x"
| "in_class (Union k1 k2) c \<longleftrightarrow> in_class k1 c \<or> in_class k2 c"

type_synonym Captures = "(nat \<times> string) list"

type_synonym MatchState = "string \<times> string \<times> Captures"

definition atWordBoundary :: "string \<Rightarrow> string \<Rightarrow> bool" where
  "atWordBoundary pre rest \<longleftrightarrow>
     (case pre of [] \<Rightarrow> False | a # _ \<Rightarrow> isWordChar a) \<noteq>
     (case rest of [] \<Rightarrow> False | b # _ \<Rightarrow> isWordChar b)"

text \<open>The iterations of \<open>r*\<close>. An iteration that consumes nothing is rejected, as in the
  language; so each iteration shortens the remaining text, and a fuel of its length is
  never used up.\<close>

fun star_iter :: "(MatchState \<Rightarrow> MatchState list) \<Rightarrow> nat \<Rightarrow> MatchState \<Rightarrow> MatchState list" where
  "star_iter f 0 st = [st]"
| "star_iter f (Suc n) st =
     concat (map (star_iter f n)
       (filter (\<lambda>st'. length (fst (snd st')) < length (fst (snd st))) (f st))) @ [st]"

primrec matches :: "Regex \<Rightarrow> MatchState \<Rightarrow> MatchState list" where
  "matches Eps = (\<lambda>st. [st])"
| "matches (Class k) = (\<lambda>(pre, rest, caps).
     (case rest of [] \<Rightarrow> []
      | c # cs \<Rightarrow> if in_class k c then [(c # pre, cs, caps)] else []))"
| "matches (Seq r1 r2) = (\<lambda>st. concat (map (matches r2) (matches r1 st)))"
| "matches (Alt r1 r2) = (\<lambda>st. matches r1 st @ matches r2 st)"
| "matches (Optional r) = (\<lambda>st. matches r st @ [st])"
| "matches (Star r) = (\<lambda>st. star_iter (matches r) (length (fst (snd st))) st)"
| "matches (Group i r) = (\<lambda>(pre, rest, caps).
     map (\<lambda>(pre', rest', caps').
            (pre', rest', (i, rev (take (length pre' - length pre) pre')) # caps'))
         (matches r (pre, rest, caps)))"
| "matches WordBoundary = (\<lambda>(pre, rest, caps).
     if atWordBoundary pre rest then [(pre, rest, caps)] else [])"

text \<open>A pattern \<open>^r$\<close> on a whole string: the first way of matching \<open>r\<close> from the start
  that ends at the end of input.\<close>

definition match_anchored :: "Regex \<Rightarrow> string \<Rightarrow> Captures option" where
  "match_anchored r s =
     map_option (\<lambda>(pre, rest, caps). caps)
       (find (\<lambda>(pre, rest, caps). rest = []) (matches r ([], s, [])))"

text \<open>A pattern \<open>^r\<close>: the first way of matching \<open>r\<close> from the start; the result is the
  text after the match and the captures.\<close>

definition match_prefix :: "Regex \<Rightarrow> string \<Rightarrow> (string \<times> Captures) option" where
  "match_prefix r s =
     (case matches r ([], s, []) of [] \<Rightarrow> None
      | (pre, rest, caps) # _ \<Rightarrow> Some (rest, caps))"

text \<open>\<open>RegExp.prototype.exec\<close> of a pattern without \<open>^\<close> at a position: the leftmost
  position from there on at which the pattern matches, and the first way of matching
  there. The result is the state at the start of the match and the state at its end.\<close>

fun exec_from :: "Regex \<Rightarrow> string \<Rightarrow> string \<Rightarrow> (MatchState \<times> MatchState) option" where
  "exec_from r pre rest =
     (case matches r (pre, rest, []) of
        st # _ \<Rightarrow> Some ((pre, rest, []), st)
      | [] \<Rightarrow> (case rest of [] \<Rightarrow> None | c # cs \<Rightarrow> exec_from r (c # pre) cs))"

text \<open>A literal word, and the same under the flag \<open>i\<close>.\<close>

fun lit :: "string \<Rightarrow> Regex" where
  "lit [] = Eps"
| "lit [c] = Class (Lit c)"
| "lit (c # cs) = Seq (Class (Lit c)) (lit cs)"

fun litI :: "string \<Rightarrow> Regex" where
  "litI [] = Eps"
| "litI [c] = Class (LitI c)"
| "litI (c # cs) = Seq (Class (LitI c)) (litI cs)"

text \<open>A JavaScript number that holds an integer, or \<open>NaN\<close>. (The model is exact: it does
  not round an integer above \<open>2^53\<close> to the nearest double.)\<close>

datatype JsNumber = NaN | Number int

definition digitValue :: "char \<Rightarrow> int" where
  "digitValue c = int (of_char c) - 48"

text \<open>\<open>parseInt(s, 10)\<close>: leading white space, an optional sign, then the longest run
  of decimal digits; \<open>NaN\<close> when there is no digit.\<close>

definition parseInt10 :: "string \<Rightarrow> JsNumber" where
  "parseInt10 s =
     (let s1 = dropWhile isWhiteSpace s;
          (sign, s2) = (case s1 of [] \<Rightarrow> (1, s1)
                        | c # cs \<Rightarrow> if c = CHR ''-'' then (- 1, cs)
                                    else if c = CHR ''+'' then (1, cs) else (1, s1));
          ds = takeWhile isDigit s2
      in if ds = [] then NaN
         else Number (sign * foldl (\<lambda>acc c. 10 * acc + digitValue c) 0 ds))"


section \<open>documentHistory.ts\<close>

text \<open>\<open>DocumentState\<close> is declared in the shared document model; the fields used here
  are the four of the data model, and the record's extension stands for any other field
  that the object spread \<open>{...documentState, ...}\<close> copies.\<close>

record ('r, 'e, 'u) DocumentState =
  ds_root :: 'r
  eventLog :: "'e list"
  undoStack :: "'u list"
  redoStack :: "'u list"

definition pruneEventLog ::
  "('r, 'e, 'u, 'z) DocumentState_scheme \<Rightarrow> int \<Rightarrow> ('r, 'e, 'u, 'z) DocumentState_scheme" where
  "pruneEventLog documentState maxEvents =
     (if int (length (eventLog documentState)) \<le> maxEvents then documentState
      else documentState\<lparr>eventLog := slice_from (eventLog documentState) (- maxEvents),
                          undoStack := [], redoStack := []\<rparr>)"


section \<open>types/quoteReview.ts and the reducer of the quote-review context\<close>

record QuoteReviewItem =
  q_id :: NodeId
  q_text :: string
  q_reference :: "string option"
  isNonBiblical :: bool
  isReviewed :: bool
  q_interjections :: "string list option"
  q_startOffset :: "int option"
  q_endOffset :: "int option"
  q_paragraphId :: "NodeId option"

text \<open>\<open>Partial<QuoteReviewItem>\<close>: \<open>None\<close> is a property that the object does not have;
  for an optional field, \<open>Some None\<close> is the property present with value \<open>undefined\<close>.\<close>

record QuoteReviewItemPartial =
  u_id :: "NodeId option"
  u_text :: "string option"
  u_reference :: "string option option"
  u_isNonBiblical :: "bool option"
  u_isReviewed :: "bool option"
  u_interjections :: "string list option option"
  u_startOffset :: "int option option"
  u_endOffset :: "int option option"
  u_paragraphId :: "NodeId option option"

text \<open>The object spread \<open>{ ...q, ...updates }\<close>.\<close>

definition spread_updates :: "QuoteReviewItem \<Rightarrow> QuoteReviewItemPartial \<Rightarrow> QuoteReviewItem" where
  "spread_updates q updates =
     \<lparr> q_id = (case u_id updates of None \<Rightarrow> q_id q | Some v \<Rightarrow> v),
       q_text = (case u_text updates of None \<Rightarrow> q_text q | Some v \<Rightarrow> v),
       q_reference = (case u_reference updates of None \<Rightarrow> q_reference q | Some v \<Rightarrow> v),
       isNonBiblical = (case u_isNonBiblical updates of None \<Rightarrow> isNonBiblical q | Some v \<Rightarrow> v),
       isReviewed = (case u_isReviewed updates of None \<Rightarrow> isReviewed q | Some v \<Rightarrow> v),
       q_interjections =
         (case u_interjections updates of None \<Rightarrow> q_interjections q | Some v \<Rightarrow> v),
       q_startOffset = (case u_startOffset updates of None \<Rightarrow> q_startOffset q | Some v \<Rightarrow> v),
       q_endOffset = (case u_endOffset updates of None \<Rightarrow> q_endOffset q | Some v \<Rightarrow> v),
       q_paragraphId = (case u_paragraphId updates of None \<Rightarrow> q_paragraphId q | Some v \<Rightarrow> v) \<rparr>"

record QuoteReviewState =
  isReviewModeActive :: bool
  focusedQuoteId :: "NodeId option"
  reviewedQuoteIds :: "NodeId set"
  panelOpen :: bool
  panelWidth :: int
  bannerDismissed :: bool

record PersistedQuoteReviewState =
  p_panelOpen :: bool
  p_panelWidth :: int
  p_reviewedQuoteIds :: "string list"
  p_bannerDismissed :: bool

datatype Edge = EdgeStart | EdgeEnd

record QuoteBoundaryDragState =
  isDragging :: bool
  edge :: "Edge option"
  originalOffset :: int
  currentOffset :: int
  d_quoteId :: "NodeId option"
  wouldMergeParagraphs :: bool
  paragraphsToMerge :: "NodeId list"

record BoundaryEditModeState =
  b_isActive :: bool
  b_quoteId :: "NodeId option"
  previewStartOffset :: "int option"
  previewEndOffset :: "int option"
  lastChangeTimestamp :: "int option"

record BibleLookupResult =
  l_success :: bool
  l_verseText :: "string option"
  l_normalizedReference :: "string option"
  l_book :: "string option"
  l_chapter :: "int option"
  l_verseStart :: "int option"
  l_verseEnd :: "int option"
  l_translation :: "string option"
  l_error :: "string option"

record SelectedRange =
  startNodeId :: NodeId
  r_startOffset :: int
  endNodeId :: NodeId
  r_endOffset :: int

record QuoteCreationState =
  isCreating :: bool
  selectedText :: string
  selectedRange :: "SelectedRange option"
  referenceInput :: string
  lookupResult :: "BibleLookupResult option"
  isLookingUp :: bool
  c_isNonBiblical :: bool
  spannedParagraphIds :: "NodeId list"

record InterjectionCandidate =
  c_text :: string
  c_startOffset :: int
  c_endOffset :: int
  confirmed :: bool
  rejected :: bool
  c_confidence :: rat
  c_context :: "string option"

record InterjectionEditState =
  i_isActive :: bool
  i_quoteId :: "NodeId option"
  pendingCandidates :: "InterjectionCandidate list"
  i_selectedText :: "string option"
  selectionRange :: "(int \<times> int) option"

datatype QuotePanelFilterMode = FilterAll | FilterUnverified | FilterByBook

record QuotePanelFilterState =
  mode :: QuotePanelFilterMode
  selectedBook :: "string option"
  searchQuery :: string

record QuoteReviewContextState =
  quotes :: "QuoteReviewItem list"
  review :: QuoteReviewState
  boundaryEdit :: BoundaryEditModeState
  boundaryDrag :: QuoteBoundaryDragState
  creation :: QuoteCreationState
  interjectionEdit :: InterjectionEditState
  panelFilter :: QuotePanelFilterState

definition DEFAULT_PANEL_WIDTH :: int where "DEFAULT_PANEL_WIDTH = 320"

definition BOUNDARY_CHANGE_DEBOUNCE_MS :: int where "BOUNDARY_CHANGE_DEBOUNCE_MS = 500"


subsection \<open>Initial state\<close>

definition initialReviewState :: QuoteReviewState where
  "initialReviewState =
     \<lparr> isReviewModeActive = False, focusedQuoteId = None, reviewedQuoteIds = {},
       panelOpen = False, panelWidth = DEFAULT_PANEL_WIDTH, bannerDismissed = False \<rparr>"

definition initialBoundaryEditState :: BoundaryEditModeState where
  "initialBoundaryEditState =
     \<lparr> b_isActive = False, b_quoteId = None, previewStartOffset = None,
       previewEndOffset = None, lastChangeTimestamp = None \<rparr>"

definition initialBoundaryDragState :: QuoteBoundaryDragState where
  "initialBoundaryDragState =
     \<lparr> isDragging = False, edge = None, originalOffset = 0, currentOffset = 0,
       d_quoteId = None, wouldMergeParagraphs = False, paragraphsToMerge = [] \<rparr>"

definition initialCreationState :: QuoteCreationState where
  "initialCreationState =
     \<lparr> isCreating = False, selectedText = [], selectedRange = None, referenceInput = [],
       lookupResult = None, isLookingUp = False, c_isNonBiblical = False,
       spannedParagraphIds = [] \<rparr>"

definition initialInterjectionEditState :: InterjectionEditState where
  "initialInterjectionEditState =
     \<lparr> i_isActive = False, i_quoteId = None, pendingCandidates = [],
       i_selectedText = None, selectionRange = None \<rparr>"

definition initialPanelFilterState :: QuotePanelFilterState where
  "initialPanelFilterState = \<lparr> mode = FilterAll, selectedBook = None, searchQuery = [] \<rparr>"

definition initialState :: QuoteReviewContextState where
  "initialState =
     \<lparr> quotes = [], review = initialReviewState, boundaryEdit = initialBoundaryEditState,
       boundaryDrag = initialBoundaryDragState, creation = initialCreationState,
       interjectionEdit = initialInterjectionEditState,
       panelFilter = initialPanelFilterState \<rparr>"

subsection \<open>Actions\<close>

datatype QuoteReviewAction =
    SET_QUOTES "QuoteReviewItem list"
  | ADD_QUOTE QuoteReviewItem
  | UPDATE_QUOTE NodeId QuoteReviewItemPartial
  | REMOVE_QUOTE NodeId
  | SET_REVIEW_MODE_ACTIVE bool
  | SET_FOCUSED_QUOTE "NodeId option"
  | MARK_QUOTE_REVIEWED NodeId
  | TOGGLE_PANEL
  | SET_PANEL_OPEN bool
  | SET_PANEL_WIDTH int
  | DISMISS_BANNER
  | ENTER_BOUNDARY_EDIT_MODE NodeId
  | EXIT_BOUNDARY_EDIT_MODE
  | UPDATE_BOUNDARY_PREVIEW "int option" "int option"
  | COMMIT_BOUNDARY_CHANGE
  | START_BOUNDARY_DRAG NodeId Edge int
  | UPDATE_BOUNDARY_DRAG int bool "NodeId list"
  | END_BOUNDARY_DRAG
  | CANCEL_BOUNDARY_DRAG
  | START_QUOTE_CREATION string "SelectedRange option" "NodeId list"
  | UPDATE_REFERENCE_INPUT string
  | SET_LOOKUP_RESULT "BibleLookupResult option"
  | SET_IS_LOOKING_UP bool
  | SET_IS_NON_BIBLICAL bool
  | CANCEL_QUOTE_CREATION
  | CONFIRM_QUOTE_CREATION
  | ENTER_INTERJECTION_EDIT_MODE NodeId
  | EXIT_INTERJECTION_EDIT_MODE
  | SET_PENDING_INTERJECTION_CANDIDATES "InterjectionCandidate list"
  | CONFIRM_INTERJECTION_CANDIDATE int
  | REJECT_INTERJECTION_CANDIDATE int
  | SET_INTERJECTION_SELECTION "string option" "(int \<times> int) option"
  | SET_FILTER_MODE QuotePanelFilterMode
  | SET_SELECTED_BOOK "string option"
  | SET_SEARCH_QUERY string
  | LOAD_PERSISTED_STATE PersistedQuoteReviewState
  | RESET_STATE

subsection \<open>The reducer\<close>

text \<open>\<open>candidates[i] = v\<close> after \<open>const candidate = candidates[i]; if (candidate)\<close>:
  the write happens only where the index names an element of the array, so an index that
  is negative or past the end changes nothing.\<close>

definition set_candidate ::
  "InterjectionCandidate list \<Rightarrow> int \<Rightarrow> (InterjectionCandidate \<Rightarrow> InterjectionCandidate)
     \<Rightarrow> InterjectionCandidate list" where
  "set_candidate candidates i f =
     (if 0 \<le> i \<and> i < int (length candidates)
      then candidates[nat i := f (candidates ! nat i)] else candidates)"

text \<open>\<open>now\<close> is the value of \<open>Date.now()\<close> at the dispatch.\<close>

fun quoteReviewReducer ::
  "int \<Rightarrow> QuoteReviewContextState \<Rightarrow> QuoteReviewAction \<Rightarrow> QuoteReviewContextState" where
  "quoteReviewReducer now state (SET_QUOTES payload) = state\<lparr>quotes := payload\<rparr>"
| "quoteReviewReducer now state (ADD_QUOTE payload) =
     state\<lparr>quotes := quotes state @ [payload]\<rparr>"
| "quoteReviewReducer now state (UPDATE_QUOTE quoteId updates) =
     state\<lparr>quotes := map (\<lambda>q. if q_id q = quoteId then spread_updates q updates else q)
                            (quotes state)\<rparr>"
| "quoteReviewReducer now state (REMOVE_QUOTE payload) =
     state\<lparr>quotes := filter (\<lambda>q. q_id q \<noteq> payload) (quotes state),
            review := (review state)\<lparr>focusedQuoteId :=
              (if focusedQuoteId (review state) = Some payload then None
               else focusedQuoteId (review state))\<rparr>\<rparr>"
| "quoteReviewReducer now state (SET_REVIEW_MODE_ACTIVE payload) =
     state\<lparr>review := (review state)\<lparr>isReviewModeActive := payload\<rparr>\<rparr>"
| "quoteReviewReducer now state (SET_FOCUSED_QUOTE payload) =
     state\<lparr>review := (review state)\<lparr>focusedQuoteId := payload\<rparr>\<rparr>"
| "quoteReviewReducer now state (MARK_QUOTE_REVIEWED payload) =
     state\<lparr>review := (review state)\<lparr>reviewedQuoteIds :=
              insert payload (reviewedQuoteIds (review state))\<rparr>\<rparr>"
| "quoteReviewReducer now state TOGGLE_PANEL =
     state\<lparr>review := (review state)\<lparr>panelOpen := \<not> panelOpen (review state)\<rparr>\<rparr>"
| "quoteReviewReducer now state (SET_PANEL_OPEN payload) =
     state\<lparr>review := (review state)\<lparr>panelOpen := payload\<rparr>\<rparr>"
| "quoteReviewReducer now state (SET_PANEL_WIDTH payload) =
     state\<lparr>review := (review state)\<lparr>panelWidth := payload\<rparr>\<rparr>"
| "quoteReviewReducer now state DISMISS_BANNER =
     state\<lparr>review := (review state)\<lparr>bannerDismissed := True\<rparr>\<rparr>"
| "quoteReviewReducer now state (ENTER_BOUNDARY_EDIT_MODE payload) =
     state\<lparr>boundaryEdit := (boundaryEdit state)\<lparr>b_isActive := True, b_quoteId := Some payload,
              previewStartOffset := None, previewEndOffset := None,
              lastChangeTimestamp := None\<rparr>\<rparr>"
| "quoteReviewReducer now state EXIT_BOUNDARY_EDIT_MODE =
     state\<lparr>boundaryEdit := initialBoundaryEditState\<rparr>"
| "quoteReviewReducer now state (UPDATE_BOUNDARY_PREVIEW startOffset endOffset) =
     state\<lparr>boundaryEdit := (boundaryEdit state)\<lparr>previewStartOffset := startOffset,
              previewEndOffset := endOffset, lastChangeTimestamp := Some now\<rparr>\<rparr>"
| "quoteReviewReducer now state COMMIT_BOUNDARY_CHANGE =
     state\<lparr>boundaryEdit := (boundaryEdit state)\<lparr>previewStartOffset := None,
              previewEndOffset := None, lastChangeTimestamp := None\<rparr>\<rparr>"
| "quoteReviewReducer now state (START_BOUNDARY_DRAG quoteId e offset) =
     state\<lparr>boundaryDrag :=
       \<lparr> isDragging = True, edge = Some e, originalOffset = offset, currentOffset = offset,
         d_quoteId = Some quoteId, wouldMergeParagraphs = False, paragraphsToMerge = [] \<rparr>\<rparr>"
| "quoteReviewReducer now state (UPDATE_BOUNDARY_DRAG offset wouldMerge toMerge) =
     state\<lparr>boundaryDrag := (boundaryDrag state)\<lparr>currentOffset := offset,
              wouldMergeParagraphs := wouldMerge, paragraphsToMerge := toMerge\<rparr>\<rparr>"
| "quoteReviewReducer now state END_BOUNDARY_DRAG =
     state\<lparr>boundaryDrag := initialBoundaryDragState\<rparr>"
| "quoteReviewReducer now state CANCEL_BOUNDARY_DRAG =
     state\<lparr>boundaryDrag := initialBoundaryDragState\<rparr>"
| "quoteReviewReducer now state (START_QUOTE_CREATION selText rng spanned) =
     state\<lparr>creation :=
       \<lparr> isCreating = True, selectedText = selText, selectedRange = rng,
         referenceInput = [], lookupResult = None, isLookingUp = False,
         c_isNonBiblical = False, spannedParagraphIds = spanned \<rparr>\<rparr>"
| "quoteReviewReducer now state (UPDATE_REFERENCE_INPUT payload) =
     state\<lparr>creation := (creation state)\<lparr>referenceInput := payload\<rparr>\<rparr>"
| "quoteReviewReducer now state (SET_LOOKUP_RESULT payload) =
     state\<lparr>creation := (creation state)\<lparr>lookupResult := payload\<rparr>\<rparr>"
| "quoteReviewReducer now state (SET_IS_LOOKING_UP payload) =
     state\<lparr>creation := (creation state)\<lparr>isLookingUp := payload\<rparr>\<rparr>"
| "quoteReviewReducer now state (SET_IS_NON_BIBLICAL payload) =
     state\<lparr>creation := (creation state)\<lparr>c_isNonBiblical := payload\<rparr>\<rparr>"
| "quoteReviewReducer now state CANCEL_QUOTE_CREATION =
     state\<lparr>creation := initialCreationState\<rparr>"
| "quoteReviewReducer now state CONFIRM_QUOTE_CREATION =
     state\<lparr>creation := initialCreationState\<rparr>"
| "quoteReviewReducer now state (ENTER_INTERJECTION_EDIT_MODE payload) =
     state\<lparr>interjectionEdit :=
       \<lparr> i_isActive = True, i_quoteId = Some payload, pendingCandidates = [],
         i_selectedText = None, selectionRange = None \<rparr>\<rparr>"
| "quoteReviewReducer now state EXIT_INTERJECTION_EDIT_MODE =
     state\<lparr>interjectionEdit := initialInterjectionEditState\<rparr>"
| "quoteReviewReducer now state (SET_PENDING_INTERJECTION_CANDIDATES payload) =
     state\<lparr>interjectionEdit := (interjectionEdit state)\<lparr>pendingCandidates := payload\<rparr>\<rparr>"
| "quoteReviewReducer now state (CONFIRM_INTERJECTION_CANDIDATE payload) =
     state\<lparr>interjectionEdit := (interjectionEdit state)\<lparr>pendingCandidates :=
       set_candidate (pendingCandidates (interjectionEdit state)) payload
         (\<lambda>candidate. candidate\<lparr>confirmed := True, rejected := False\<rparr>)\<rparr>\<rparr>"
| "quoteReviewReducer now state (REJECT_INTERJECTION_CANDIDATE payload) =
     state\<lparr>interjectionEdit := (interjectionEdit state)\<lparr>pendingCandidates :=
       set_candidate (pendingCandidates (interjectionEdit state)) payload
         (\<lambda>candidate. candidate\<lparr>confirmed := False, rejected := True\<rparr>)\<rparr>\<rparr>"
| "quoteReviewReducer now state (SET_INTERJECTION_SELECTION txt rng) =
     state\<lparr>interjectionEdit := (interjectionEdit state)\<lparr>i_selectedText := txt,
              selectionRange := rng\<rparr>\<rparr>"
| "quoteReviewReducer now state (SET_FILTER_MODE payload) =
     state\<lparr>panelFilter := (panelFilter state)\<lparr>mode := payload\<rparr>\<rparr>"
| "quoteReviewReducer now state (SET_SELECTED_BOOK payload) =
     state\<lparr>panelFilter := (panelFilter state)\<lparr>selectedBook := payload\<rparr>\<rparr>"
| "quoteReviewReducer now state (SET_SEARCH_QUERY payload) =
     state\<lparr>panelFilter := (panelFilter state)\<lparr>searchQuery := payload\<rparr>\<rparr>"
| "quoteReviewReducer now state (LOAD_PERSISTED_STATE payload) =
     state\<lparr>review := (review state)\<lparr>panelOpen := p_panelOpen payload,
              panelWidth := p_panelWidth payload,
              reviewedQuoteIds := set (p_reviewedQuoteIds payload),
              bannerDismissed := p_bannerDismissed payload\<rparr>\<rparr>"
| "quoteReviewReducer now state RESET_STATE = initialState"

section \<open>hooks/useBoundaryMutation.ts\<close>

record BoundaryMutationResult =
  requiresMerge :: bool
  m_paragraphsToMerge :: "NodeId list"
  newStartOffset :: int
  newEndOffset :: int

record DocumentNodeInfo =
  n_startOffset :: int
  n_endOffset :: int
  n_type :: string

text \<open>The options of the hook. A callback is modelled by whether the caller has supplied
  it; what it is called with is recorded as a \<open>BoundaryCallback\<close>. \<open>documentNodes\<close> is a
  \<open>Map\<close>, kept in its insertion order, which is the order of \<open>forEach\<close>. The options are
  taken to be the same at every render.\<close>

record UseBoundaryMutationOptions =
  onBoundaryCommit :: bool
  onParagraphMerge :: bool
  documentNodes :: "(NodeId \<times> DocumentNodeInfo) list option"

datatype BoundaryCallback =
    OnBoundaryCommit NodeId BoundaryMutationResult
  | OnParagraphMerge "NodeId list"

text \<open>What of the hook outlives a render: the state of the context that it dispatches
  to, and its two refs. A pending timer of \<open>setTimeout\<close> is the closure it will run, that
  is the quote id and the drag state that \<open>endDrag\<close> captured. The delay itself is not
  modelled: the timer firing is the step \<open>commitTimerFired\<close>.\<close>

record BoundaryMutationHook =
  ctx :: QuoteReviewContextState
  commitTimerRef :: "(NodeId \<times> QuoteBoundaryDragState) option"
  lastCommittedOffsetRef :: "int option"

text \<open>The hook runs at every render of its component. It reads \<open>boundaryDrag\<close> from the
  context, and the callbacks \<open>updateDrag\<close> and \<open>endDrag\<close> that it returns close over that
  value (it is in the dependency lists of their \<open>useCallback\<close>): a callback of one render
  goes on seeing the drag state of that render, whatever has been dispatched since. So
  \<open>useBoundaryMutation\<close> is the drag state that the callbacks of a render see, and a
  callback takes it as the parameter \<open>bd\<close>. A dispatch acts on the state that the reducer
  holds when it is made, and the refs are read and written in place.\<close>

definition useBoundaryMutation :: "BoundaryMutationHook \<Rightarrow> QuoteBoundaryDragState" where
  "useBoundaryMutation h = boundaryDrag (ctx h)"

definition findSpannedParagraphs ::
  "UseBoundaryMutationOptions \<Rightarrow> int \<Rightarrow> int \<Rightarrow> NodeId list" where
  "findSpannedParagraphs opts startOffset endOffset =
     (case documentNodes opts of None \<Rightarrow> []
      | Some nodes \<Rightarrow>
          map fst (filter (\<lambda>(nodeId, node). n_type node = ''paragraph'' \<and>
                             n_startOffset node < endOffset \<and> n_endOffset node > startOffset)
                          nodes))"

definition checkParagraphCrossing ::
  "UseBoundaryMutationOptions \<Rightarrow> int \<Rightarrow> int \<Rightarrow> bool \<times> NodeId list" where
  "checkParagraphCrossing opts startOffset endOffset =
     (let spannedParagraphs = findSpannedParagraphs opts startOffset endOffset
      in (length spannedParagraphs > 1, spannedParagraphs))"

definition snapToWordBoundary :: "int \<Rightarrow> Edge \<Rightarrow> int" where
  "snapToWordBoundary offset direction = offset"

definition startDrag ::
  "int \<Rightarrow> NodeId \<Rightarrow> Edge \<Rightarrow> int \<Rightarrow> BoundaryMutationHook \<Rightarrow> BoundaryMutationHook" where
  "startDrag now quoteId e initialOffset h =
     h\<lparr>lastCommittedOffsetRef := Some initialOffset,
       ctx := quoteReviewReducer now (ctx h) (START_BOUNDARY_DRAG quoteId e initialOffset)\<rparr>"

text \<open>\<open>updateDrag\<close>, of the render whose drag state is \<open>bd\<close>. The result is the hook after
  the call and the actions that the call has dispatched.\<close>

definition updateDrag ::
  "UseBoundaryMutationOptions \<Rightarrow> int \<Rightarrow> QuoteBoundaryDragState \<Rightarrow> int \<Rightarrow> int \<Rightarrow> int
     \<Rightarrow> BoundaryMutationHook \<Rightarrow> BoundaryMutationHook \<times> QuoteReviewAction list" where
  "updateDrag opts now bd newOffset mouseX mouseY h =
     (if \<not> isDragging bd \<or> d_quoteId bd = None then (h, [])
      else
        let snappedOffset =
              snapToWordBoundary newOffset (case edge bd of None \<Rightarrow> EdgeEnd | Some e \<Rightarrow> e);
            (startOffset, endOffset) =
              (if edge bd = Some EdgeStart then (snappedOffset, originalOffset bd)
               else (originalOffset bd, snappedOffset));
            (crosses, paragraphs) = checkParagraphCrossing opts startOffset endOffset;
            action = UPDATE_BOUNDARY_DRAG snappedOffset crosses paragraphs
        in (h\<lparr>ctx := quoteReviewReducer now (ctx h) action\<rparr>, [action]))"

text \<open>\<open>endDrag\<close>, of the render whose drag state is \<open>bd\<close>: it clears a pending timer and
  sets a new one, whose closure holds the quote id, the edge and the offsets of \<open>bd\<close>.\<close>

definition endDrag :: "QuoteBoundaryDragState \<Rightarrow> BoundaryMutationHook \<Rightarrow> BoundaryMutationHook" where
  "endDrag bd h =
     (case d_quoteId bd of None \<Rightarrow> h
      | Some quoteId \<Rightarrow> if \<not> isDragging bd then h
                        else h\<lparr>commitTimerRef := Some (quoteId, bd)\<rparr>)"

text \<open>The body of the timer of \<open>endDrag\<close>, with the callbacks it makes.\<close>

definition commitTimerFired ::
  "UseBoundaryMutationOptions \<Rightarrow> int \<Rightarrow> BoundaryMutationHook
     \<Rightarrow> BoundaryMutationHook \<times> BoundaryCallback list" where
  "commitTimerFired opts now h =
     (case commitTimerRef h of None \<Rightarrow> (h, [])
      | Some (quoteId, bd) \<Rightarrow>
          let newOffset = currentOffset bd;
              significantChange =
                (case lastCommittedOffsetRef h of None \<Rightarrow> True
                 | Some l \<Rightarrow> \<bar>newOffset - l\<bar> > 5);
              (newStart, newEnd) =
                (if edge bd = Some EdgeStart then (newOffset, originalOffset bd)
                 else (originalOffset bd, newOffset));
              (crosses, paragraphs) = checkParagraphCrossing opts newStart newEnd;
              result = \<lparr> requiresMerge = crosses, m_paragraphsToMerge = paragraphs,
                         newStartOffset = newStart, newEndOffset = newEnd \<rparr>;
              committing = (significantChange \<and> onBoundaryCommit opts);
              calls = (if committing
                       then OnBoundaryCommit quoteId result #
                            (if crosses \<and> onParagraphMerge opts
                             then [OnParagraphMerge paragraphs] else [])
                       else [])
          in (h\<lparr>lastCommittedOffsetRef :=
                   (if committing then Some newOffset else lastCommittedOffsetRef h),
                 ctx := quoteReviewReducer now (ctx h) END_BOUNDARY_DRAG,
                 commitTimerRef := None\<rparr>,
              calls))"

definition cancelDrag :: "int \<Rightarrow> BoundaryMutationHook \<Rightarrow> BoundaryMutationHook" where
  "cancelDrag now h =
     h\<lparr>commitTimerRef := None, lastCommittedOffsetRef := None,
       ctx := quoteReviewReducer now (ctx h) CANCEL_BOUNDARY_DRAG\<rparr>"

text \<open>What happens between \<open>startDrag\<close> and \<open>endDrag\<close>: the component renders again, or
  \<open>updateDrag\<close> is called, with an offset and the two mouse coordinates, on the callbacks
  of the latest render. \<open>dragSteps\<close> runs such steps from the drag state of the latest
  render and the hook; the result is both after the steps and, for each call of
  \<open>updateDrag\<close>, the actions that it has dispatched.\<close>

datatype DragStep = Render | UpdateDrag int int int

fun dragSteps ::
  "UseBoundaryMutationOptions \<Rightarrow> int \<Rightarrow> DragStep list
     \<Rightarrow> QuoteBoundaryDragState \<times> BoundaryMutationHook
     \<Rightarrow> (QuoteBoundaryDragState \<times> BoundaryMutationHook) \<times> QuoteReviewAction list list" where
  "dragSteps opts now [] (bd, h) = ((bd, h), [])"
| "dragSteps opts now (Render # steps) (bd, h) =
     dragSteps opts now steps (useBoundaryMutation h, h)"
| "dragSteps opts now (UpdateDrag newOffset mouseX mouseY # steps) (bd, h) =
     (let (h', dispatched) = updateDrag opts now bd newOffset mouseX mouseY h;
          (result, rest) = dragSteps opts now steps (bd, h')
      in (result, dispatched # rest))"


section \<open>hooks/useQuoteCreation.ts\<close>

text \<open>\<open>REFERENCE_PATTERN\<close> is
  \<open>/^([1-3]?\s*[A-Za-z]+(?:\s+[A-Za-z]+)*)\s*(\d+):(\d+)(?:-(\d+))?$/\<close>; the anchors
  are the \<open>match_anchored\<close> that runs it.\<close>

definition REFERENCE_PATTERN :: Regex where
  "REFERENCE_PATTERN =
     Seq (Group 1
            (Seq (Optional (Class OrdinalDigit))
              (Seq (Star (Class Space))
                (Seq (Plus (Class Letter))
                     (Star (Seq (Plus (Class Space)) (Plus (Class Letter))))))))
       (Seq (Star (Class Space))
         (Seq (Group 2 (Plus (Class Digit)))
           (Seq (Class (Lit (CHR '':'')))
             (Seq (Group 3 (Plus (Class Digit)))
                  (Optional (Seq (Class (Lit (CHR ''-''))) (Group 4 (Plus (Class Digit)))))))))"

definition LOOKUP_DEBOUNCE_MS :: int where "LOOKUP_DEBOUNCE_MS = 500"

record ParsedReference =
  valid :: bool
  p_book :: "string option"
  p_chapter :: "JsNumber option"
  p_verseStart :: "JsNumber option"
  p_verseEnd :: "JsNumber option"

text \<open>A capture that did not take part in the match is \<open>undefined\<close>; \<open>x ? f(x) : d\<close>
  on a string tests that it is neither \<open>undefined\<close> nor empty.\<close>

definition parseReference :: "string \<Rightarrow> ParsedReference" where
  "parseReference reference =
     (case match_anchored REFERENCE_PATTERN (trim reference) of
        None \<Rightarrow> \<lparr> valid = False, p_book = None, p_chapter = None, p_verseStart = None,
                  p_verseEnd = None \<rparr>
      | Some caps \<Rightarrow>
          \<lparr> valid = True,
            p_book = Some (case map_of caps 1 of None \<Rightarrow> [] | Some book \<Rightarrow> trim book),
            p_chapter = Some (case map_of caps 2 of None \<Rightarrow> Number 0
                              | Some chapter \<Rightarrow>
                                  if chapter \<noteq> [] then parseInt10 chapter else Number 0),
            p_verseStart = Some (case map_of caps 3 of None \<Rightarrow> Number 0
                                 | Some verseStart \<Rightarrow>
                                     if verseStart \<noteq> [] then parseInt10 verseStart
                                     else Number 0),
            p_verseEnd = (case map_of caps 4 of None \<Rightarrow> None
                          | Some verseEnd \<Rightarrow>
                              if verseEnd \<noteq> [] then Some (parseInt10 verseEnd) else None) \<rparr>)"

text \<open>What \<open>performLookup\<close> does up to its \<open>await\<close>, as the list of its calls: the
  context actions it dispatches and the call of the lookup service \<open>onLookupVerse\<close>.
  \<open>hasLookup\<close> says whether the caller has supplied \<open>onLookupVerse\<close>.\<close>

datatype LookupCall = Dispatch QuoteReviewAction | CallLookupVerse string

definition performLookup :: "bool \<Rightarrow> string \<Rightarrow> LookupCall list" where
  "performLookup hasLookup reference =
     (if \<not> hasLookup then []
      else if \<not> valid (parseReference reference)
      then [Dispatch (SET_LOOKUP_RESULT (Some
              \<lparr> l_success = False, l_verseText = None, l_normalizedReference = None,
                l_book = None, l_chapter = None, l_verseStart = None, l_verseEnd = None,
                l_translation = None,
                l_error = Some (''Invalid reference format. Use '' @ [CHR 0x22] @
                  ''Book Chapter:Verse'' @ [CHR 0x22] @ '' format.'') \<rparr>))]
      else [Dispatch (SET_IS_LOOKING_UP True), CallLookupVerse reference])"

text \<open>\<open>updateReference\<close>: its dispatches, and whether it sets the timer that will run
  \<open>performLookup\<close> on the input.\<close>

definition updateReference :: "string \<Rightarrow> LookupCall list \<times> bool" where
  "updateReference input =
     ([Dispatch (UPDATE_REFERENCE_INPUT input), Dispatch (SET_LOOKUP_RESULT None)],
      trim input \<noteq> [] \<and> valid (parseReference input))"

section \<open>hooks/useParagraphMerge.ts\<close>

record ParagraphInfo =
  pi_id :: NodeId
  pi_text :: string
  pi_startOffset :: int
  pi_endOffset :: int

record MergePreview =
  paragraphIds :: "NodeId list"
  mergedText :: string
  mp_startOffset :: int
  mp_endOffset :: int
  requiresConfirmation :: bool

text \<open>The options of the hook: \<open>getParagraphInfo\<close> may be missing and returns \<open>null\<close>
  for an id it does not know; \<open>onMergeConfirmed\<close> is modelled by whether it is supplied;
  \<open>autoConfirm\<close> defaults to \<open>false\<close>.\<close>

record UseParagraphMergeOptions =
  getParagraphInfo :: "(NodeId \<Rightarrow> ParagraphInfo option) option"
  onMergeConfirmed :: bool
  autoConfirm :: "bool option"

definition autoConfirm_of :: "UseParagraphMergeOptions \<Rightarrow> bool" where
  "autoConfirm_of opts = (case autoConfirm opts of None \<Rightarrow> False | Some b \<Rightarrow> b)"

text \<open>\<open>ids.map(getParagraphInfo).filter(p => p !== null).sort((a, b) => a.startOffset -
  b.startOffset)\<close>. \<open>Array.prototype.sort\<close> is stable, as \<^const>\<open>sort_key\<close> is.\<close>

definition resolveParagraphs ::
  "(NodeId \<Rightarrow> ParagraphInfo option) \<Rightarrow> NodeId list \<Rightarrow> ParagraphInfo list" where
  "resolveParagraphs get ids = sort_key pi_startOffset (List.map_filter get ids)"

definition calculateMergedContent :: "UseParagraphMergeOptions \<Rightarrow> NodeId list \<Rightarrow> string" where
  "calculateMergedContent opts ids =
     (case getParagraphInfo opts of None \<Rightarrow> []
      | Some get \<Rightarrow>
          if length ids = 0 then []
          else join '' '' (map (\<lambda>p. trim (pi_text p)) (resolveParagraphs get ids)))"

definition previewMerge :: "UseParagraphMergeOptions \<Rightarrow> NodeId list \<Rightarrow> MergePreview option" where
  "previewMerge opts ids =
     (case getParagraphInfo opts of None \<Rightarrow> None
      | Some get \<Rightarrow>
          if length ids < 2 then None
          else
            let paragraphs = resolveParagraphs get ids
            in if length paragraphs < 2 then None
               else Some
                 \<lparr> paragraphIds = ids,
                   mergedText = join '' '' (map (\<lambda>p. trim (pi_text p)) paragraphs),
                   mp_startOffset =
                     (case paragraphs of [] \<Rightarrow> 0 | firstParagraph # _ \<Rightarrow>
                        pi_startOffset firstParagraph),
                   mp_endOffset =
                     (if paragraphs = [] then 0 else pi_endOffset (last paragraphs)),
                   requiresConfirmation = (\<not> autoConfirm_of opts) \<rparr>)"

text \<open>The state of the hook is \<open>pendingMerge\<close>; the other actions return the new state
  and the previews that \<open>onMergeConfirmed\<close> is called with.\<close>

definition requestMerge ::
  "UseParagraphMergeOptions \<Rightarrow> NodeId list \<Rightarrow> MergePreview option
     \<Rightarrow> MergePreview option \<times> MergePreview list" where
  "requestMerge opts ids pendingMerge =
     (case previewMerge opts ids of None \<Rightarrow> (pendingMerge, [])
      | Some preview \<Rightarrow>
          if autoConfirm_of opts
          then (pendingMerge, if onMergeConfirmed opts then [preview] else [])
          else (Some preview, []))"

definition confirmMerge ::
  "UseParagraphMergeOptions \<Rightarrow> MergePreview option \<Rightarrow> MergePreview option \<times> MergePreview list" where
  "confirmMerge opts pendingMerge =
     (case pendingMerge of None \<Rightarrow> (None, [])
      | Some pending \<Rightarrow> (None, if onMergeConfirmed opts then [pending] else []))"

definition cancelMerge :: "MergePreview option \<Rightarrow> MergePreview option" where
  "cancelMerge pendingMerge = None"


section \<open>hooks/useInterjectionDetection.ts\<close>

record InterjectionPattern =
  pattern :: Regex
  ip_source :: string
  ip_confidence :: rat
  ip_context :: string

text \<open>Each pattern is \<open>/\b(w1|w2|...)\b/gi\<close>.\<close>

fun alternatives :: "string list \<Rightarrow> Regex" where
  "alternatives [] = Eps"
| "alternatives [w] = litI w"
| "alternatives (w # ws) = Alt (litI w) (alternatives ws)"

definition wordPattern :: "string list \<Rightarrow> Regex" where
  "wordPattern ws = Seq WordBoundary (Seq (Group 1 (alternatives ws)) WordBoundary)"

text \<open>\<open>pattern.source\<close>, the text of the pattern: \<open>\b(w1|w2|...)\b\<close>.\<close>

definition wordPatternSource :: "string list \<Rightarrow> string" where
  "wordPatternSource ws =
     [CHR 0x5C] @ ''b('' @ join ''|'' ws @ '')'' @ [CHR 0x5C] @ ''b''"

definition interjectionPattern :: "string list \<Rightarrow> rat \<Rightarrow> string \<Rightarrow> InterjectionPattern" where
  "interjectionPattern ws conf cx =
     \<lparr> pattern = wordPattern ws, ip_source = wordPatternSource ws, ip_confidence = conf,
       ip_context = cx \<rparr>"

definition INTERJECTION_PATTERNS :: "InterjectionPattern list" where
  "INTERJECTION_PATTERNS =
     [interjectionPattern [''amen''] (95/100) ''Common affirmation'',
      interjectionPattern [''hallelujah'', ''alleluia''] (95/100) ''Praise expression'',
      interjectionPattern [''praise the lord'', ''praise god''] (90/100) ''Praise expression'',
      interjectionPattern [''glory to god'', ''glory be''] (85/100) ''Glorification'',
      interjectionPattern [''yes lord''] (75/100) ''Affirmation'',
      interjectionPattern [''thank you jesus'', ''thank you lord''] (80/100) ''Thanksgiving'',
      interjectionPattern [''come on'', ''c'' @ [CHR 0x27] @ ''mon''] (60/100) ''Encouragement'',
      interjectionPattern [''that'' @ [CHR 0x27] @ ''s right''] (55/100) ''Agreement'',
      interjectionPattern [''mmhmm'', ''mhm'', ''uh-huh''] (70/100) ''Verbal affirmation'',
      interjectionPattern [''wow'', ''oh'', ''ah''] (40/100) ''Exclamation'']"

definition AUTO_DETECT_THRESHOLD :: rat where "AUTO_DETECT_THRESHOLD = 50/100"

definition HIGH_CONFIDENCE_THRESHOLD :: rat where "HIGH_CONFIDENCE_THRESHOLD = 80/100"

record UseInterjectionDetectionOptions =
  threshold :: "rat option"
  highConfidenceOnly :: "bool option"

definition threshold_of :: "UseInterjectionDetectionOptions \<Rightarrow> rat" where
  "threshold_of opts = (case threshold opts of None \<Rightarrow> AUTO_DETECT_THRESHOLD | Some t \<Rightarrow> t)"

definition highConfidenceOnly_of :: "UseInterjectionDetectionOptions \<Rightarrow> bool" where
  "highConfidenceOnly_of opts = (case highConfidenceOnly opts of None \<Rightarrow> False | Some b \<Rightarrow> b)"

record InterjectionMatch =
  im_text :: string
  im_startOffset :: int
  im_endOffset :: int
  im_confidence :: rat
  im_context :: string
  im_pattern :: string

text \<open>The loop \<open>while ((match = pattern.exec(text)) !== null)\<close> on a pattern with the
  flag \<open>g\<close>, from \<open>lastIndex\<close>: each \<open>exec\<close> searches from the end of the last match.
  The result is the list of the matches as (start, end, matched text). A match that
  leaves \<open>lastIndex\<close> where it was would be found again for ever: where the loop does not
  end, the model returns \<open>None\<close>.\<close>

function execAll :: "Regex \<Rightarrow> string \<Rightarrow> string \<Rightarrow> (int \<times> int \<times> string) list option" where
  "execAll r pre rest =
     (case exec_from r pre rest of None \<Rightarrow> Some []
      | Some ((pre0, rest0, caps0), (pre1, rest1, caps1)) \<Rightarrow>
          if length rest1 < length rest
          then map_option
                 (\<lambda>ms. (int (length pre0), int (length pre1),
                         rev (take (length pre1 - length pre0) pre1)) # ms)
                 (execAll r pre1 rest1)
          else None)"
  by pat_completeness auto
termination
  by (relation "measure (\<lambda>(r, pre, rest). length rest)") auto

definition patternMatches :: "string \<Rightarrow> InterjectionPattern \<Rightarrow> InterjectionMatch list option" where
  "patternMatches text p =
     map_option
       (map (\<lambda>(s, e, t). \<lparr> im_text = t, im_startOffset = s, im_endOffset = e,
                            im_confidence = ip_confidence p, im_context = ip_context p,
                            im_pattern = ip_source p \<rparr>))
       (execAll (pattern p) [] text)"

text \<open>The outer loop over the patterns: \<open>None\<close> as soon as one inner loop does not end.\<close>

fun collectMatches :: "string \<Rightarrow> InterjectionPattern list \<Rightarrow> InterjectionMatch list option" where
  "collectMatches text [] = Some []"
| "collectMatches text (p # ps) =
     (case patternMatches text p of None \<Rightarrow> None
      | Some ms \<Rightarrow> map_option (\<lambda>rest. ms @ rest) (collectMatches text ps))"

definition overlaps :: "InterjectionMatch \<Rightarrow> InterjectionMatch \<Rightarrow> bool" where
  "overlaps m' m \<longleftrightarrow>
     (im_startOffset m' \<ge> im_startOffset m \<and> im_startOffset m' < im_endOffset m) \<or>
     (im_endOffset m' > im_startOffset m \<and> im_endOffset m' \<le> im_endOffset m)"

text \<open>\<open>filteredMatches.indexOf(filteredMatches.find(p))\<close>: the first index whose element
  satisfies \<open>p\<close>.\<close>

fun findIndex :: "('a \<Rightarrow> bool) \<Rightarrow> 'a list \<Rightarrow> nat option" where
  "findIndex p [] = None"
| "findIndex p (x # xs) = (if p x then Some 0 else map_option Suc (findIndex p xs))"

fun removeOverlaps :: "InterjectionMatch list \<Rightarrow> InterjectionMatch list \<Rightarrow> InterjectionMatch list" where
  "removeOverlaps filteredMatches [] = filteredMatches"
| "removeOverlaps filteredMatches (m # ms) =
     (case findIndex (overlaps m) filteredMatches of
        None \<Rightarrow> removeOverlaps (filteredMatches @ [m]) ms
      | Some i \<Rightarrow>
          if im_confidence m > im_confidence (filteredMatches ! i)
          then removeOverlaps (filteredMatches[i := m]) ms
          else removeOverlaps filteredMatches ms)"

definition findMatches :: "string \<Rightarrow> InterjectionMatch list option" where
  "findMatches text =
     map_option (\<lambda>ms. removeOverlaps [] (sort_key im_startOffset ms))
       (collectMatches text INTERJECTION_PATTERNS)"

definition toCandidate :: "InterjectionMatch \<Rightarrow> InterjectionCandidate" where
  "toCandidate m =
     \<lparr> c_text = im_text m, c_startOffset = im_startOffset m, c_endOffset = im_endOffset m,
       confirmed = False, rejected = False, c_confidence = im_confidence m,
       c_context = Some (im_context m) \<rparr>"

definition detectInterjections ::
  "UseInterjectionDetectionOptions \<Rightarrow> string \<Rightarrow> InterjectionCandidate list option" where
  "detectInterjections opts text =
     map_option
       (\<lambda>ms. let effectiveThreshold =
                    (if highConfidenceOnly_of opts then HIGH_CONFIDENCE_THRESHOLD
                     else threshold_of opts)
             in map toCandidate (filter (\<lambda>m. im_confidence m \<ge> effectiveThreshold) ms))
       (findMatches text)"

definition getHighConfidenceMatches :: "string \<Rightarrow> InterjectionCandidate list option" where
  "getHighConfidenceMatches text =
     map_option
       (\<lambda>ms. map toCandidate (filter (\<lambda>m. im_confidence m \<ge> HIGH_CONFIDENCE_THRESHOLD) ms))
       (findMatches text)"

definition hasLikelyInterjections :: "UseInterjectionDetectionOptions \<Rightarrow> string \<Rightarrow> bool option" where
  "hasLikelyInterjections opts text =
     map_option (\<lambda>ms. \<exists>m \<in> set ms. im_confidence m \<ge> threshold_of opts) (findMatches text)"

text \<open>The actions of the hook, as the context actions they dispatch, in order.\<close>

definition startEditing ::
  "UseInterjectionDetectionOptions \<Rightarrow> NodeId \<Rightarrow> string \<Rightarrow> QuoteReviewAction list option" where
  "startEditing opts quoteId text =
     map_option
       (\<lambda>candidates. [ENTER_INTERJECTION_EDIT_MODE quoteId,
                       SET_PENDING_INTERJECTION_CANDIDATES candidates])
       (detectInterjections opts text)"

definition confirmInterjection :: "int \<Rightarrow> QuoteReviewAction list" where
  "confirmInterjection index = [CONFIRM_INTERJECTION_CANDIDATE index]"

definition rejectInterjection :: "int \<Rightarrow> QuoteReviewAction list" where
  "rejectInterjection index = [REJECT_INTERJECTION_CANDIDATE index]"

text \<open>\<open>currentCandidates.splice(insertIndex, 0, newCandidate)\<close> at the first candidate
  that starts after the selection, or at the end.\<close>

definition markSelectionAsInterjection ::
  "InterjectionEditState \<Rightarrow> string \<Rightarrow> int \<Rightarrow> int \<Rightarrow> QuoteReviewAction list" where
  "markSelectionAsInterjection interjEdit text startOffset endOffset =
     (let newCandidate =
            \<lparr> c_text = text, c_startOffset = startOffset, c_endOffset = endOffset,
              confirmed = True, rejected = False, c_confidence = 1,
              c_context = Some ''Manually marked'' \<rparr>;
          currentCandidates = pendingCandidates interjEdit;
          insertIndex =
            (case findIndex (\<lambda>c. c_startOffset c > startOffset) currentCandidates of
               None \<Rightarrow> length currentCandidates | Some i \<Rightarrow> i)
      in [SET_INTERJECTION_SELECTION (Some text) (Some (startOffset, endOffset)),
          SET_PENDING_INTERJECTION_CANDIDATES
            (take insertIndex currentCandidates @ [newCandidate] @
             drop insertIndex currentCandidates)])"

definition exitEditing :: "QuoteReviewAction list" where
  "exitEditing = [EXIT_INTERJECTION_EDIT_MODE]"

text \<open>Running a list of dispatched actions through the reducer.\<close>

definition dispatchAll ::
  "int \<Rightarrow> QuoteReviewContextState \<Rightarrow> QuoteReviewAction list \<Rightarrow> QuoteReviewContextState" where
  "dispatchAll now state actions = foldl (quoteReviewReducer now) state actions"

section \<open>bridge/astTipTapConverter.ts\<close>

subsection \<open>The editor tree\<close>

text \<open>An attribute value is \<open>unknown\<close> to the program. \<open>attrs\<close> is a
  \<open>Record<string, unknown>\<close>, kept as the list of its properties.\<close>

datatype JsValue = JUndefined | JNull | JBool bool | JNum rat | JStr string

type_synonym Attrs = "(string \<times> JsValue) list"

definition truthy :: "JsValue \<Rightarrow> bool" where
  "truthy v = (case v of JUndefined \<Rightarrow> False | JNull \<Rightarrow> False | JBool b \<Rightarrow> b
               | JNum n \<Rightarrow> n \<noteq> 0 | JStr s \<Rightarrow> s \<noteq> [])"

text \<open>\<open>node.attrs?.key\<close>: \<open>undefined\<close> where the object or the property is missing.\<close>

definition attr :: "Attrs option \<Rightarrow> string \<Rightarrow> JsValue" where
  "attr attrs key =
     (case attrs of None \<Rightarrow> JUndefined
      | Some props \<Rightarrow> (case map_of props key of None \<Rightarrow> JUndefined | Some v \<Rightarrow> v))"

text \<open>The casts \<open>v as string\<close>, \<open>v as number\<close>, \<open>v as boolean\<close> on a truthy attribute.
  The program and the model are typed: the editor schema gives these attributes the type
  that the cast names. A value of another type is outside the typed program, and the
  model reads it as a missing attribute.\<close>

definition asString :: "JsValue \<Rightarrow> string option" where
  "asString v = (case v of JStr s \<Rightarrow> if s \<noteq> [] then Some s else None | _ \<Rightarrow> None)"

definition asNumber :: "JsValue \<Rightarrow> rat option" where
  "asNumber v = (case v of JNum n \<Rightarrow> if n \<noteq> 0 then Some n else None | _ \<Rightarrow> None)"

record TipTapMark =
  mark_type :: string
  mark_attrs :: "Attrs option"

datatype TipTapNode =
  TipTapNode (t_type: string) (t_attrs: "Attrs option") (t_content: "TipTapNode list option")
    (t_text: "string option") (t_marks: "TipTapMark list option")

text \<open>\<open>doc.content\<close> as the program tests it: \<open>!doc.content\<close> holds of a missing or
  otherwise falsy value, \<open>!Array.isArray(doc.content)\<close> of any other value that is not
  an array.\<close>

datatype DocContent = ContentMissing | ContentNotArray | ContentArray "TipTapNode list"

record TipTapDocument =
  doc_content :: DocContent

record ConversionOptions =
  preserveIds :: "bool option"
  includeMetadata :: "bool option"
  includeInterjections :: "bool option"

text \<open>A \<open>boolean | undefined\<close> used as a condition.\<close>

definition isTrue :: "bool option \<Rightarrow> bool" where
  "isTrue b = (b = Some True)"

text \<open>The default of a destructuring \<open>{ preserveIds = true } = options\<close>.\<close>

definition orTrue :: "bool option \<Rightarrow> bool" where
  "orTrue b = (case b of None \<Rightarrow> True | Some v \<Rightarrow> v)"

record 'a ConversionResult =
  success :: bool
  data :: "'a option"
  error :: "string option"
  warnings :: "string list option"

subsection \<open>The document model\<close>

text \<open>The document model is declared in \<open>shared/documentModel\<close>. Its nodes are modelled
  from the data model of the specification and from the fields that the converter reads
  and writes. A number that travels through an editor attribute is a \<^typ>\<open>rat\<close>.\<close>

type_synonym Timestamp = string

record QuoteReference =
  ref_book :: string
  ref_chapter :: rat
  ref_verseStart :: "rat option"
  ref_verseEnd :: "rat option"
  originalText :: string
  normalizedReference :: string

record QuoteDetection =
  confidence :: rat
  confidenceLevel :: string
  translation :: string
  translationAutoDetected :: bool
  verseText :: string
  isPartialMatch :: bool

record QuoteMetadata =
  reference :: "QuoteReference option"
  detection :: "QuoteDetection option"
  interjections :: "NodeId list"
  userVerified :: bool

datatype DocumentNode =
    ParagraphNode NodeId int Timestamp "DocumentNode list"
  | HeadingNode NodeId int Timestamp rat "DocumentNode list"
  | QuoteBlockNode NodeId int Timestamp QuoteMetadata "DocumentNode list"
  | TextNode NodeId int Timestamp string "TipTapMark list option"
  | InterjectionNode NodeId int Timestamp string NodeId

text \<open>The fields are, in order: \<open>id\<close>, \<open>version\<close>, \<open>updatedAt\<close>, then \<open>children\<close> of a
  paragraph; \<open>level\<close> and \<open>children\<close> of a heading; \<open>metadata\<close> and \<open>children\<close> of a
  quote block; \<open>content\<close> and \<open>marks\<close> of a text node; \<open>content\<close> and \<open>metadataId\<close> of an
  interjection.\<close>

record DocumentRootNode =
  r_id :: NodeId
  r_version :: int
  r_updatedAt :: Timestamp
  title :: "string option"
  biblePassage :: "string option"
  speaker :: "string option"
  tags :: "string list option"
  children :: "DocumentNode list"

text \<open>A \<open>string | undefined\<close> used as a condition, and \<open>a || b\<close> on two of them.\<close>

definition nonEmpty :: "string option \<Rightarrow> bool" where
  "nonEmpty s = (case s of None \<Rightarrow> False | Some t \<Rightarrow> t \<noteq> [])"

definition orElse :: "string option \<Rightarrow> string option \<Rightarrow> string option" where
  "orElse a b = (if nonEmpty a then a else b)"

subsection \<open>Fresh ids and the clock\<close>

text \<open>Modelled from the spec: \<open>createNodeId\<close> and \<open>createTimestamp\<close> of the module
  \<open>events\<close> are missing from the sources. The specification says that a node without a
  carried id gets a freshly minted one: the model threads a counter of the ids minted so
  far and mints \<open>node-0\<close>, \<open>node-1\<close>, ... The timestamp is the time \<open>now\<close> of the
  conversion, a parameter.\<close>

fun decimal :: "nat \<Rightarrow> string" where
  "decimal n =
     (if n < 10 then [char_of (48 + n)] else decimal (n div 10) @ [char_of (48 + n mod 10)])"

declare decimal.simps [simp del]

definition createNodeId :: "nat \<Rightarrow> NodeId \<times> nat" where
  "createNodeId n = (''node-'' @ decimal n, Suc n)"

subsection \<open>AST to editor tree\<close>

definition markToTipTap :: "TipTapMark \<Rightarrow> TipTapMark" where
  "markToTipTap m = \<lparr> mark_type = mark_type m, mark_attrs = mark_attrs m \<rparr>"

text \<open>The loops \<open>for (const child of node.children)\<close> of the three block converters are
  \<open>convertChildren\<close> and, for the quote block, which wraps a text leaf in a paragraph,
  \<open>convertQuoteChildren\<close>.\<close>

fun convertNodeToTipTap :: "ConversionOptions \<Rightarrow> DocumentNode \<Rightarrow> TipTapNode option"
  and convertChildren :: "ConversionOptions \<Rightarrow> DocumentNode list \<Rightarrow> TipTapNode list"
  and convertQuoteChildren :: "ConversionOptions \<Rightarrow> DocumentNode list \<Rightarrow> TipTapNode list"
where
  "convertNodeToTipTap opts (ParagraphNode nid v u cs) =
     Some (TipTapNode ''paragraph''
       (if isTrue (preserveIds opts) then Some [(''nodeId'', JStr nid)] else None)
       (Some (convertChildren opts cs)) None None)"
| "convertNodeToTipTap opts (QuoteBlockNode nid v u metadata cs) =
     (let content = convertQuoteChildren opts cs;
          attrs =
            (if isTrue (preserveIds opts) then [(''nodeId'', JStr nid)] else []) @
            (case reference metadata of
               Some r \<Rightarrow>
                 if isTrue (includeMetadata opts)
                 then [(''reference'', JStr (normalizedReference r)),
                       (''book'', JStr (ref_book r)),
                       (''chapter'', JNum (ref_chapter r)),
                       (''verseStart'', case ref_verseStart r of None \<Rightarrow> JNull | Some n \<Rightarrow> JNum n),
                       (''verseEnd'', case ref_verseEnd r of None \<Rightarrow> JNull | Some n \<Rightarrow> JNum n),
                       (''originalText'', JStr (originalText r))]
                 else []
             | None \<Rightarrow> []) @
            (case detection metadata of
               Some d \<Rightarrow>
                 if isTrue (includeMetadata opts)
                 then [(''translation'', JStr (translation d)),
                       (''confidence'', JNum (confidence d))]
                 else []
             | None \<Rightarrow> []) @
            (if isTrue (includeMetadata opts)
             then [(''userVerified'', JBool (userVerified metadata))] else [])
      in Some (TipTapNode ''blockquote''
           (if length attrs > 0 then Some attrs else None)
           (Some (if length content > 0 then content
                  else [TipTapNode ''paragraph'' None (Some []) None None]))
           None None))"
| "convertNodeToTipTap opts (HeadingNode nid v u level cs) =
     Some (TipTapNode ''heading''
       (Some ((''level'', JNum level) #
              (if isTrue (preserveIds opts) then [(''nodeId'', JStr nid)] else [])))
       (Some (convertChildren opts cs)) None None)"
| "convertNodeToTipTap opts (TextNode nid v u content marks) =
     (if content = [] then None
      else Some (TipTapNode ''text'' None None (Some content)
             (case marks of None \<Rightarrow> None
              | Some ms \<Rightarrow> if length ms > 0 then Some (map markToTipTap ms) else None)))"
| "convertNodeToTipTap opts (InterjectionNode nid v u content metadataId) =
     (if isTrue (includeInterjections opts)
      then Some (TipTapNode ''text'' None None (Some content)
             (Some [\<lparr> mark_type = ''interjection'',
                      mark_attrs = Some (if isTrue (preserveIds opts)
                                         then [(''nodeId'', JStr nid),
                                               (''metadataId'', JStr metadataId)]
                                         else []) \<rparr>]))
      else None)"
| "convertChildren opts [] = []"
| "convertChildren opts (child # rest) =
     (case convertNodeToTipTap opts child of
        None \<Rightarrow> convertChildren opts rest
      | Some converted \<Rightarrow> converted # convertChildren opts rest)"
| "convertQuoteChildren opts [] = []"
| "convertQuoteChildren opts (child # rest) =
     (case convertNodeToTipTap opts child of
        None \<Rightarrow> convertQuoteChildren opts rest
      | Some converted \<Rightarrow>
          (if t_type converted = ''text''
           then TipTapNode ''paragraph'' None (Some [converted]) None None
           else converted) # convertQuoteChildren opts rest)"

text \<open>\<open>astToTipTapJson\<close> passes the three options on with their defaults filled in.
  Nothing in its \<open>try\<close> block throws on a root of the document model, so the \<open>catch\<close>
  branch has no counterpart.\<close>

definition astToTipTapJson ::
  "DocumentRootNode \<Rightarrow> ConversionOptions \<Rightarrow> TipTapDocument ConversionResult" where
  "astToTipTapJson r options =
     (let opts = \<lparr> preserveIds = Some (orTrue (preserveIds options)),
                   includeMetadata = Some (orTrue (includeMetadata options)),
                   includeInterjections = Some (orTrue (includeInterjections options)) \<rparr>;
          content =
            (case title r of
               Some t \<Rightarrow>
                 if t \<noteq> []
                 then [TipTapNode ''heading''
                         (Some [(''level'', JNum 1), (''textAlign'', JStr ''center'')])
                         (Some [TipTapNode ''text'' None None (Some t) None]) None None]
                 else []
             | None \<Rightarrow> []) @
            (case biblePassage r of
               Some p \<Rightarrow>
                 if p \<noteq> []
                 then [TipTapNode ''paragraph'' None
                         (Some [TipTapNode ''text'' None None (Some ''Primary Reference: '')
                                  (Some [\<lparr> mark_type = ''bold'', mark_attrs = None \<rparr>]),
                                TipTapNode ''text'' None None (Some p) None])
                         None None]
                 else []
             | None \<Rightarrow> []) @
            convertChildren opts (children r);
          content' = (if length content = 0
                      then [TipTapNode ''paragraph'' None (Some []) None None]
                      else content)
      in \<lparr> success = True, data = Some \<lparr> doc_content = ContentArray content' \<rparr>,
           error = None, warnings = None \<rparr>)"

subsection \<open>Editor tree to AST\<close>

fun extractText :: "TipTapNode \<Rightarrow> string" where
  "extractText (TipTapNode ty ats co tx mk) =
     (if nonEmpty tx then (case tx of Some t \<Rightarrow> t | None \<Rightarrow> [])
      else (case co of Some cs \<Rightarrow> concat (map extractText cs) | None \<Rightarrow> []))"

text \<open>\<open>/^([A-Za-z\s]+)/\<close> of \<open>extractBook\<close>.\<close>

definition BOOK_PATTERN :: Regex where
  "BOOK_PATTERN = Group 1 (Plus (Class (Union Letter Space)))"

definition extractBook :: "string \<Rightarrow> string" where
  "extractBook ref =
     (case match_prefix BOOK_PATTERN ref of None \<Rightarrow> ''Unknown''
      | Some (rest, caps) \<Rightarrow> (case map_of caps 1 of None \<Rightarrow> ''Unknown'' | Some b \<Rightarrow> trim b))"

text \<open>\<open>text.replace(/^Primary References?:\s*/, '')\<close> and
  \<open>text.replace(/^Speaker:\s*/, '')\<close>: the text after the match, or the text itself
  where the pattern does not match.\<close>

definition PRIMARY_REFERENCE_PATTERN :: Regex where
  "PRIMARY_REFERENCE_PATTERN =
     Seq (lit ''Primary Reference'')
       (Seq (Optional (Class (Lit (CHR ''s''))))
         (Seq (Class (Lit (CHR '':''))) (Star (Class Space))))"

definition SPEAKER_PATTERN :: Regex where
  "SPEAKER_PATTERN = Seq (lit ''Speaker:'') (Star (Class Space))"

definition removePrefix :: "Regex \<Rightarrow> string \<Rightarrow> string" where
  "removePrefix r s = (case match_prefix r s of None \<Rightarrow> s | Some (rest, caps) \<Rightarrow> rest)"

definition hasInterjectionMark :: "TipTapMark list option \<Rightarrow> bool" where
  "hasInterjectionMark marks =
     (case marks of None \<Rightarrow> False
      | Some ms \<Rightarrow> list_ex (\<lambda>m. mark_type m = ''interjection'') ms)"

definition interjectionMarkAttrs :: "TipTapMark list option \<Rightarrow> Attrs option" where
  "interjectionMarkAttrs marks =
     (case marks of None \<Rightarrow> None
      | Some ms \<Rightarrow> (case find (\<lambda>m. mark_type m = ''interjection'') ms of
                     None \<Rightarrow> None | Some m \<Rightarrow> mark_attrs m))"

text \<open>\<open>(v as NodeId) || createNodeId()\<close>.\<close>

definition carriedOrFresh :: "JsValue \<Rightarrow> nat \<Rightarrow> NodeId \<times> nat" where
  "carriedOrFresh v n = (case asString v of Some s \<Rightarrow> (s, n) | None \<Rightarrow> createNodeId n)"

text \<open>\<open>preserveIds && attrs.nodeId ? attrs.nodeId : createNodeId()\<close>, where \<open>preserveIds\<close>
  is read from the options object as it was passed in.\<close>

definition preservedOrFresh :: "ConversionOptions \<Rightarrow> Attrs option \<Rightarrow> nat \<Rightarrow> NodeId \<times> nat" where
  "preservedOrFresh opts attrs n =
     (if isTrue (preserveIds opts) then carriedOrFresh (attr attrs ''nodeId'') n
      else createNodeId n)"

definition convertTipTapInterjection :: "Timestamp \<Rightarrow> TipTapNode \<Rightarrow> nat \<Rightarrow> DocumentNode \<times> nat" where
  "convertTipTapInterjection now node n =
     (let attrs = interjectionMarkAttrs (t_marks node);
          (nid, n1) = carriedOrFresh (attr attrs ''nodeId'') n;
          (mid, n2) = carriedOrFresh (attr attrs ''metadataId'') n1
      in (InterjectionNode nid 1 now (case t_text node of None \<Rightarrow> [] | Some t \<Rightarrow> t) mid, n2))"

text \<open>The text leaf of \<open>convertTipTapToNode\<close>.\<close>

definition convertTipTapText ::
  "ConversionOptions \<Rightarrow> Timestamp \<Rightarrow> TipTapNode \<Rightarrow> nat \<Rightarrow> DocumentNode \<times> nat" where
  "convertTipTapText opts now node n =
     (if hasInterjectionMark (t_marks node) then convertTipTapInterjection now node n
      else
        let otherMarks =
              map_option (filter (\<lambda>m. mark_type m \<noteq> ''interjection'')) (t_marks node);
            (nid, n1) = preservedOrFresh opts (t_attrs node) n
        in (TextNode nid 1 now (case t_text node of None \<Rightarrow> [] | Some t \<Rightarrow> t)
              (case otherMarks of None \<Rightarrow> None
               | Some ms \<Rightarrow> if length ms > 0 then Some (map markToTipTap ms) else None),
            n1))"

text \<open>\<open>if (children.length === 0) children.push(<an empty text node>)\<close>.\<close>

definition ensureTextNode :: "Timestamp \<Rightarrow> DocumentNode list \<Rightarrow> nat \<Rightarrow> DocumentNode list \<times> nat" where
  "ensureTextNode now cs n =
     (if length cs = 0 then (let (nid, n1) = createNodeId n in ([TextNode nid 1 now [] None], n1))
      else (cs, n))"

text \<open>The two nested loops of \<open>convertTipTapBlockquote\<close>: over the children of the
  block quote, and over the content of each child that is a paragraph.\<close>

fun quoteTextNodes :: "Timestamp \<Rightarrow> TipTapNode list \<Rightarrow> nat \<Rightarrow> DocumentNode list \<times> nat" where
  "quoteTextNodes now [] n = ([], n)"
| "quoteTextNodes now (textNode # rest) n =
     (let (cs1, n1) =
            (if t_type textNode = ''text''
             then (if hasInterjectionMark (t_marks textNode)
                   then (let (d, n') = convertTipTapInterjection now textNode n in ([d], n'))
                   else (let (nid, n') = createNodeId n
                         in ([TextNode nid 1 now
                                (case t_text textNode of None \<Rightarrow> [] | Some t \<Rightarrow> t) None], n')))
             else ([], n));
          (cs2, n2) = quoteTextNodes now rest n1
      in (cs1 @ cs2, n2))"

fun quoteParagraphs :: "Timestamp \<Rightarrow> TipTapNode list \<Rightarrow> nat \<Rightarrow> DocumentNode list \<times> nat" where
  "quoteParagraphs now [] n = ([], n)"
| "quoteParagraphs now (child # rest) n =
     (let (cs1, n1) =
            (if t_type child = ''paragraph''
             then (case t_content child of None \<Rightarrow> ([], n) | Some c \<Rightarrow> quoteTextNodes now c n)
             else ([], n));
          (cs2, n2) = quoteParagraphs now rest n1
      in (cs1 @ cs2, n2))"

definition convertTipTapBlockquote ::
  "ConversionOptions \<Rightarrow> Timestamp \<Rightarrow> TipTapNode \<Rightarrow> nat \<Rightarrow> DocumentNode \<times> nat" where
  "convertTipTapBlockquote opts now node n =
     (let ats = t_attrs node;
          (cs, n1) = (case t_content node of None \<Rightarrow> ([], n)
                      | Some c \<Rightarrow> quoteParagraphs now c n);
          refString = (case asString (attr ats ''reference'') of None \<Rightarrow> ''Unknown'' | Some s \<Rightarrow> s);
          metadata =
            \<lparr> reference = Some
                \<lparr> ref_book = (case asString (attr ats ''book'') of
                                None \<Rightarrow> extractBook refString | Some s \<Rightarrow> s),
                  ref_chapter = (case asNumber (attr ats ''chapter'') of None \<Rightarrow> 0 | Some c \<Rightarrow> c),
                  ref_verseStart = asNumber (attr ats ''verseStart''),
                  ref_verseEnd = (case attr ats ''verseEnd'' of JNum v \<Rightarrow> Some v | _ \<Rightarrow> None),
                  originalText = (case asString (attr ats ''originalText'') of
                                    None \<Rightarrow> refString | Some s \<Rightarrow> s),
                  normalizedReference = refString \<rparr>,
              detection = Some
                \<lparr> confidence = (case asNumber (attr ats ''confidence'') of
                                  None \<Rightarrow> 1/2 | Some c \<Rightarrow> c),
                  confidenceLevel = ''medium'',
                  translation = (case asString (attr ats ''translation'') of
                                   None \<Rightarrow> ''KJV'' | Some s \<Rightarrow> s),
                  translationAutoDetected = False,
                  verseText = [],
                  isPartialMatch = False \<rparr>,
              interjections = [],
              userVerified = (case attr ats ''userVerified'' of JBool b \<Rightarrow> b | _ \<Rightarrow> False) \<rparr>;
          (nid, n2) = preservedOrFresh opts ats n1
      in (QuoteBlockNode nid 1 now metadata cs, n2))"

text \<open>\<open>convertTipTapNodes\<close> is the loop \<open>for (const child of node.content)\<close> of the
  paragraph and of the heading.\<close>

function convertTipTapToNode ::
    "ConversionOptions \<Rightarrow> Timestamp \<Rightarrow> TipTapNode \<Rightarrow> nat \<Rightarrow> DocumentNode option \<times> nat"
  and convertTipTapParagraph ::
    "ConversionOptions \<Rightarrow> Timestamp \<Rightarrow> TipTapNode \<Rightarrow> nat \<Rightarrow> DocumentNode \<times> nat"
  and convertTipTapHeading ::
    "ConversionOptions \<Rightarrow> Timestamp \<Rightarrow> TipTapNode \<Rightarrow> nat \<Rightarrow> DocumentNode \<times> nat"
  and convertTipTapNodes ::
    "ConversionOptions \<Rightarrow> Timestamp \<Rightarrow> TipTapNode list \<Rightarrow> nat \<Rightarrow> DocumentNode list \<times> nat"
where
  "convertTipTapToNode opts now node n =
     (if t_type node = ''paragraph''
      then (let (d, n1) = convertTipTapParagraph opts now node n in (Some d, n1))
      else if t_type node = ''blockquote''
      then (let (d, n1) = convertTipTapBlockquote opts now node n in (Some d, n1))
      else if t_type node = ''heading''
      then (let (d, n1) = convertTipTapHeading opts now node n in (Some d, n1))
      else if t_type node = ''text''
      then (let (d, n1) = convertTipTapText opts now node n in (Some d, n1))
      else (None, n))"
| "convertTipTapParagraph opts now (TipTapNode ty ats co tx mk) n =
     (let (cs, n1) = (case co of None \<Rightarrow> ([], n) | Some c \<Rightarrow> convertTipTapNodes opts now c n);
          (cs', n2) = ensureTextNode now cs n1;
          (nid, n3) = preservedOrFresh opts ats n2
      in (ParagraphNode nid 1 now cs', n3))"
| "convertTipTapHeading opts now (TipTapNode ty ats co tx mk) n =
     (let level = (case asNumber (attr ats ''level'') of None \<Rightarrow> 1 | Some l \<Rightarrow> l);
          (cs, n1) = (case co of None \<Rightarrow> ([], n) | Some c \<Rightarrow> convertTipTapNodes opts now c n);
          (cs', n2) = ensureTextNode now cs n1;
          (nid, n3) = preservedOrFresh opts ats n2
      in (HeadingNode nid 1 now level cs', n3))"
| "convertTipTapNodes opts now [] n = ([], n)"
| "convertTipTapNodes opts now (child # rest) n =
     (let (converted, n1) = convertTipTapToNode opts now child n;
          (cs, n2) = convertTipTapNodes opts now rest n1
      in (case converted of None \<Rightarrow> (cs, n2) | Some d \<Rightarrow> (d # cs, n2)))"
  by pat_completeness auto
termination
  by (relation "measure (\<lambda>x. case x of
          Inl (Inl (opts, now, node, n)) \<Rightarrow> 2 * size node + 1
        | Inl (Inr (opts, now, node, n)) \<Rightarrow> 2 * size node
        | Inr (Inl (opts, now, node, n)) \<Rightarrow> 2 * size node
        | Inr (Inr (opts, now, nodes, n)) \<Rightarrow> 2 * size_list size nodes + 1)") auto

text \<open>The loop \<open>for (const node of doc.content)\<close> of \<open>tipTapJsonToAst\<close>, with its
  variables \<open>title\<close>, \<open>biblePassage\<close>, \<open>speaker\<close> and \<open>isFirstNode\<close>; the result is the
  list \<open>children\<close> and the final values of the three strings.\<close>

definition isTitleHeading :: "TipTapNode \<Rightarrow> bool" where
  "isTitleHeading node \<longleftrightarrow>
     t_type node = ''heading'' \<and> attr (t_attrs node) ''level'' = JNum 1 \<and>
     attr (t_attrs node) ''textAlign'' = JStr ''center''"

fun tipTapLoop ::
  "ConversionOptions \<Rightarrow> Timestamp \<Rightarrow> TipTapNode list \<Rightarrow> string option \<Rightarrow> string option
     \<Rightarrow> string option \<Rightarrow> bool \<Rightarrow> nat
     \<Rightarrow> DocumentNode list \<times> string option \<times> string option \<times> string option \<times> nat" where
  "tipTapLoop opts now [] ttl passage spk isFirstNode n = ([], ttl, passage, spk, n)"
| "tipTapLoop opts now (node # rest) ttl passage spk isFirstNode n =
     (if t_type node = ''heading'' \<and> attr (t_attrs node) ''level'' = JNum 1 \<and>
         \<not> nonEmpty ttl \<and> isFirstNode \<and>
         attr (t_attrs node) ''textAlign'' = JStr ''center''
      then tipTapLoop opts now rest (Some (extractText node)) passage spk False n
      else if t_type node = ''paragraph'' \<and>
              (prefix ''Primary Reference:'' (extractText node) \<or>
               prefix ''Primary References:'' (extractText node))
      then tipTapLoop opts now rest ttl
             (Some (removePrefix PRIMARY_REFERENCE_PATTERN (extractText node))) spk False n
      else if t_type node = ''paragraph'' \<and>
              (prefix ''References from the Sermon:'' (extractText node) \<or>
               prefix ''Tags:'' (extractText node))
      then tipTapLoop opts now rest ttl passage spk False n
      else if t_type node = ''paragraph'' \<and> prefix ''Speaker:'' (extractText node)
      then tipTapLoop opts now rest ttl passage
             (Some (removePrefix SPEAKER_PATTERN (extractText node))) False n
      else if t_type node = ''horizontalRule''
      then tipTapLoop opts now rest ttl passage spk False n
      else
        (let (converted, n1) = convertTipTapToNode opts now node n;
             (cs, ttl', passage', spk', n2) = tipTapLoop opts now rest ttl passage spk False n1
         in (case converted of None \<Rightarrow> (cs, ttl', passage', spk', n2)
             | Some d \<Rightarrow> (d # cs, ttl', passage', spk', n2))))"

text \<open>\<open>preserveIds ? (existingRoot?.id || 'root-1') : createNodeId()\<close>, where
  \<open>preserveIds\<close> is the destructured option with its default.\<close>

definition rootIdFor ::
  "ConversionOptions \<Rightarrow> DocumentRootNode option \<Rightarrow> nat \<Rightarrow> NodeId \<times> nat" where
  "rootIdFor options existingRoot n =
     (if orTrue (preserveIds options)
      then ((case existingRoot of None \<Rightarrow> ''root-1''
             | Some r \<Rightarrow> if r_id r \<noteq> [] then r_id r else ''root-1''), n)
      else createNodeId n)"

text \<open>\<open>existingRoot?.title\<close> and its like.\<close>

definition existing :: "(DocumentRootNode \<Rightarrow> 'a option) \<Rightarrow> DocumentRootNode option \<Rightarrow> 'a option" where
  "existing field existingRoot = (case existingRoot of None \<Rightarrow> None | Some r \<Rightarrow> field r)"

text \<open>\<open>tipTapJsonToAst\<close> hands the options object to \<open>convertTipTapToNode\<close> as it
  received it, without the default that it has given to its own \<open>preserveIds\<close>. The
  root it builds has no \<open>tags\<close>. Nothing in its \<open>try\<close> block throws on an editor tree,
  so the \<open>catch\<close> branch has no counterpart. The result comes with the id counter.\<close>

definition tipTapJsonToAst ::
  "TipTapDocument \<Rightarrow> ConversionOptions \<Rightarrow> DocumentRootNode option \<Rightarrow> Timestamp \<Rightarrow> nat
     \<Rightarrow> DocumentRootNode ConversionResult \<times> nat" where
  "tipTapJsonToAst doc options existingRoot now n =
     (case doc_content doc of
        ContentArray nodes \<Rightarrow>
          (let (cs, ttl, passage, spk, n1) =
                 tipTapLoop options now nodes None None None True n;
               (rootId, n2) = rootIdFor options existingRoot n1
           in (\<lparr> success = True,
                 data = Some \<lparr> r_id = rootId, r_version = 1, r_updatedAt = now,
                               title = orElse ttl (existing title existingRoot),
                               biblePassage = orElse passage (existing biblePassage existingRoot),
                               speaker = orElse spk (existing speaker existingRoot),
                               tags = None, children = cs \<rparr>,
                 error = None, warnings = None \<rparr>, n2))
      | _ \<Rightarrow>
          (let (rootId, n1) = rootIdFor options existingRoot n
           in (\<lparr> success = True,
                 data = Some \<lparr> r_id = rootId, r_version = 1, r_updatedAt = now,
                               title = existing title existingRoot,
                               biblePassage = existing biblePassage existingRoot,
                               speaker = existing speaker existingRoot,
                               tags = None, children = [] \<rparr>,
                 error = None,
                 warnings = Some [''Document content was empty or invalid''] \<rparr>, n1)))"

subsection \<open>Observations of a document\<close>

text \<open>The plain text of a node: the contents of its text and interjection leaves, in
  document order.\<close>

fun plainText :: "DocumentNode \<Rightarrow> string" where
  "plainText (ParagraphNode nid v u cs) = concat (map plainText cs)"
| "plainText (HeadingNode nid v u level cs) = concat (map plainText cs)"
| "plainText (QuoteBlockNode nid v u metadata cs) = concat (map plainText cs)"
| "plainText (TextNode nid v u content marks) = content"
| "plainText (InterjectionNode nid v u content metadataId) = content"

definition rootText :: "DocumentRootNode \<Rightarrow> string" where
  "rootText r = concat (map plainText (children r))"

text \<open>The structural nodes of a node, in document order, each with its kind and id.\<close>

fun structuralIds :: "DocumentNode \<Rightarrow> (string \<times> NodeId) list" where
  "structuralIds (ParagraphNode nid v u cs) =
     (''paragraph'', nid) # concat (map structuralIds cs)"
| "structuralIds (HeadingNode nid v u level cs) =
     (''heading'', nid) # concat (map structuralIds cs)"
| "structuralIds (QuoteBlockNode nid v u metadata cs) =
     (''quote_block'', nid) # concat (map structuralIds cs)"
| "structuralIds (TextNode nid v u content marks) = []"
| "structuralIds (InterjectionNode nid v u content metadataId) = []"

definition rootStructuralIds :: "DocumentRootNode \<Rightarrow> (string \<times> NodeId) list" where
  "rootStructuralIds r = concat (map structuralIds (children r))"

fun isInline :: "DocumentNode \<Rightarrow> bool" where
  "isInline (TextNode nid v u content marks) = True"
| "isInline (InterjectionNode nid v u content metadataId) = True"
| "isInline _ = False"

text \<open>A node of the document model: every id is a non-empty string, a heading has a
  level from 1 to 6, and the children of a quote block are text and interjection nodes
  (their type in the document model).\<close>

fun validNode :: "DocumentNode \<Rightarrow> bool" where
  "validNode (ParagraphNode nid v u cs) \<longleftrightarrow> nid \<noteq> [] \<and> list_all validNode cs"
| "validNode (HeadingNode nid v u level cs) \<longleftrightarrow>
     nid \<noteq> [] \<and> level \<in> set [1, 2, 3, 4, 5, 6] \<and> list_all validNode cs"
| "validNode (QuoteBlockNode nid v u metadata cs) \<longleftrightarrow>
     nid \<noteq> [] \<and> list_all isInline cs \<and> list_all validNode cs"
| "validNode (TextNode nid v u content marks) \<longleftrightarrow> nid \<noteq> []"
| "validNode (InterjectionNode nid v u content metadataId) \<longleftrightarrow> nid \<noteq> [] \<and> metadataId \<noteq> []"

definition validRoot :: "DocumentRootNode \<Rightarrow> bool" where
  "validRoot r \<longleftrightarrow> r_id r \<noteq> [] \<and> list_all validNode (children r)"

text \<open>The round trip through the editor tree, the root itself passed as
  \<open>existingRoot\<close>: with the same options in both directions, and with default options.\<close>

definition defaultOptions :: ConversionOptions where
  "defaultOptions = \<lparr> preserveIds = None, includeMetadata = None, includeInterjections = None \<rparr>"

definition roundTripWith ::
  "ConversionOptions \<Rightarrow> DocumentRootNode \<Rightarrow> Timestamp \<Rightarrow> nat
     \<Rightarrow> DocumentRootNode ConversionResult" where
  "roundTripWith options r now n =
     (case data (astToTipTapJson r options) of
        None \<Rightarrow> \<lparr> success = False, data = None,
                  error = error (astToTipTapJson r options), warnings = None \<rparr>
      | Some doc \<Rightarrow> fst (tipTapJsonToAst doc options (Some r) now n))"

definition roundTrip ::
  "DocumentRootNode \<Rightarrow> Timestamp \<Rightarrow> nat \<Rightarrow> DocumentRootNode ConversionResult" where
  "roundTrip r now n = roundTripWith defaultOptions r now n"

subsection \<open>The strings that a pattern matches\<close>

text \<open>The language of a pattern, as a grammar: which strings it matches as a whole,
  whatever the order in which a matcher looks for them. A word boundary consumes nothing
  and depends on the text around it, so the language speaks for the patterns without it.\<close>

inductive_set star :: "string set \<Rightarrow> string set" for L :: "string set" where
  star_empty: "[] \<in> star L"
| star_step: "u \<in> L \<Longrightarrow> v \<in> star L \<Longrightarrow> u @ v \<in> star L"

fun lang :: "Regex \<Rightarrow> string set" where
  "lang Eps = {[]}"
| "lang (Class k) = {[c] | c. in_class k c}"
| "lang (Seq r1 r2) = {u @ v | u v. u \<in> lang r1 \<and> v \<in> lang r2}"
| "lang (Alt r1 r2) = lang r1 \<union> lang r2"
| "lang (Optional r) = insert [] (lang r)"
| "lang (Star r) = star (lang r)"
| "lang (Group i r) = lang r"
| "lang WordBoundary = {[]}"

fun assertionFree :: "Regex \<Rightarrow> bool" where
  "assertionFree WordBoundary = False"
| "assertionFree (Seq r1 r2) = (assertionFree r1 \<and> assertionFree r2)"
| "assertionFree (Alt r1 r2) = (assertionFree r1 \<and> assertionFree r2)"
| "assertionFree (Optional r) = assertionFree r"
| "assertionFree (Star r) = assertionFree r"
| "assertionFree (Group i r) = assertionFree r"
| "assertionFree _ = True"

text \<open>The grammar of references of the specification: the strings that match
  \<open>^([1-3]?\s*[A-Za-z]+(?:\s+[A-Za-z]+)*)\s*(\d+):(\d+)(?:-(\d+))?$\<close>.\<close>

definition referenceGrammar :: "string set" where
  "referenceGrammar = lang REFERENCE_PATTERN"

text \<open>The texts left after each way of matching.\<close>

definition rests :: "MatchState list \<Rightarrow> string set" where
  "rests sts = (\<lambda>st. fst (snd st)) ` set sts"

text \<open>The least number of characters that a match of a pattern consumes.\<close>

fun minLen :: "Regex \<Rightarrow> nat" where
  "minLen Eps = 0"
| "minLen (Class k) = 1"
| "minLen (Seq r1 r2) = minLen r1 + minLen r2"
| "minLen (Alt r1 r2) = min (minLen r1) (minLen r2)"
| "minLen (Optional r) = 0"
| "minLen (Star r) = 0"
| "minLen (Group i r) = minLen r"
| "minLen WordBoundary = 0"

subsection \<open>Observations of the conversions\<close>

text \<open>The level that \<open>convertTipTapHeading\<close> gives to a heading of the editor tree, and the
  levels of the headings among a list of AST nodes, in order.\<close>

definition levelOf :: "TipTapNode \<Rightarrow> rat" where
  "levelOf node = (case asNumber (attr (t_attrs node) ''level'') of None \<Rightarrow> 1 | Some l \<Rightarrow> l)"

fun headingLevels :: "DocumentNode list \<Rightarrow> rat list" where
  "headingLevels [] = []"
| "headingLevels (HeadingNode nid v u level cs # ds) = level # headingLevels ds"
| "headingLevels (d # ds) = headingLevels ds"

text \<open>The literal prefixes by which \<open>tipTapJsonToAst\<close> recognises a metadata paragraph,
  and the top-level paragraphs of a document whose text starts with one of them.\<close>

definition hasMetadataPrefix :: "string \<Rightarrow> bool" where
  "hasMetadataPrefix s \<longleftrightarrow>
     prefix ''Primary Reference:'' s \<or> prefix ''Primary References:'' s \<or>
     prefix ''References from the Sermon:'' s \<or> prefix ''Tags:'' s \<or>
     prefix ''Speaker:'' s"

fun isMetadataParagraph :: "DocumentNode \<Rightarrow> bool" where
  "isMetadataParagraph (ParagraphNode nid v u cs) =
     hasMetadataPrefix (concat (map plainText cs))"
| "isMetadataParagraph _ = False"

subsection \<open>Example documents\<close>

text \<open>A document with a title, a passage, a paragraph that holds an interjection, a
  heading and a quote block.\<close>

definition sermonRoot :: DocumentRootNode where
  "sermonRoot =
     \<lparr> r_id = ''root-9'', r_version = 4, r_updatedAt = ''t0'', title = Some ''Grace'',
       biblePassage = Some ''John 3:16'', speaker = None, tags = None,
       children =
         [ParagraphNode ''p1'' 1 ''t0''
            [TextNode ''x1'' 1 ''t0'' ''Hello '' None,
             InterjectionNode ''i1'' 1 ''t0'' ''amen'' ''m1''],
          HeadingNode ''h1'' 1 ''t0'' 2 [TextNode ''x2'' 1 ''t0'' ''Part'' None],
          QuoteBlockNode ''q1'' 1 ''t0''
            \<lparr> reference = None, detection = None, interjections = [],
              userVerified = False \<rparr>
            [TextNode ''x3'' 1 ''t0'' ''For God'' None]] \<rparr>"

text \<open>A document whose only paragraph starts with one of the metadata prefixes.\<close>

definition speakerLineRoot :: DocumentRootNode where
  "speakerLineRoot =
     \<lparr> r_id = ''root-9'', r_version = 1, r_updatedAt = ''t0'', title = None,
       biblePassage = None, speaker = None, tags = None,
       children =
         [ParagraphNode ''p1'' 1 ''t0'' [TextNode ''x1'' 1 ''t0'' ''Speaker: Bob'' None]] \<rparr>"

text \<open>An editor document with a centred first heading of level 1, a second one like
  it, and a heading of level 1 that is not centred.\<close>

definition threeHeadingsDoc :: TipTapDocument where
  "threeHeadingsDoc =
     \<lparr> doc_content = ContentArray
         [TipTapNode ''heading'' (Some [(''level'', JNum 1), (''textAlign'', JStr ''center'')])
            (Some [TipTapNode ''text'' None None (Some ''Grace'') None]) None None,
          TipTapNode ''heading'' (Some [(''level'', JNum 1), (''textAlign'', JStr ''center'')])
            (Some [TipTapNode ''text'' None None (Some ''Later'') None]) None None,
          TipTapNode ''heading'' (Some [(''level'', JNum 1)])
            (Some [TipTapNode ''text'' None None (Some ''Mine'') None]) None None] \<rparr>"


subsection \<open>Observations of a drag\<close>





section \<open>Properties of the event log pruning\<close>

lemma slice_from_neg:
  "0 < m \<Longrightarrow> slice_from xs (- m) = drop (length xs - nat m) xs"
  by (auto simp: slice_from_def Let_def max_def nat_diff_distrib'
      intro: arg_cong[where f="\<lambda>k. drop k xs"])

text \<open>For a positive \<open>maxEvents\<close> the function does what its documentation says: a log
  within the bound is returned as it is; a longer one keeps its last \<open>maxEvents\<close>
  entries, loses both stacks and keeps every other field.\<close>

lemma pruneEventLog_positive:
  assumes "0 < maxEvents"
  shows "pruneEventLog ds maxEvents =
     (if int (length (eventLog ds)) \<le> maxEvents then ds
      else ds\<lparr>eventLog := drop (length (eventLog ds) - nat maxEvents) (eventLog ds),
              undoStack := [], redoStack := []\<rparr>)"
  using assms by (simp add: pruneEventLog_def slice_from_neg)

text \<open>
  Claim C6. \<open>pruneEventLog\<close> returns the state unchanged when the log has at most
  \<open>maxEvents\<close> entries, and otherwise a state whose log is exactly the most recent
  \<open>maxEvents\<close> entries, with both stacks empty and every other field unchanged.

  The code misses the bound \<open>maxEvents = 0\<close>: \<open>slice(-0)\<close> is \<open>slice(0)\<close>, the whole
  array. On a log of two events and \<open>maxEvents = 0\<close> the function clears the stacks as
  for a pruned log, and keeps both events instead of none.
\<close>

theorem pruneEventLog_zero_keeps_log:
  "pruneEventLog \<lparr> ds_root = ''doc'', eventLog = [''e1'', ''e2''],
                   undoStack = [''snapshot''], redoStack = [] \<rparr> 0
     = \<lparr> ds_root = ''doc'', eventLog = [''e1'', ''e2''], undoStack = [], redoStack = [] \<rparr>"
  by (simp add: pruneEventLog_def slice_from_def)


section \<open>Properties of the reducer\<close>

lemma map_absent: "Q \<notin> q_id ` set qs \<Longrightarrow> map (\<lambda>q. if q_id q = Q then f q else q) qs = qs"
  by (induction qs) auto

lemma filter_absent: "Q \<notin> q_id ` set qs \<Longrightarrow> filter (\<lambda>q. q_id q \<noteq> Q) qs = qs"
  by (induction qs) auto

text \<open>
  Claim C5, as amended. For a quote id that is not in \<open>state.quotes\<close>, \<open>UPDATE_QUOTE\<close>
  with any updates returns the state as it was, and \<open>REMOVE_QUOTE\<close> returns the state as
  it was except that \<open>review.focusedQuoteId\<close> becomes \<open>null\<close> when it held that id.
  (The reducer never throws: it is a total function.)
\<close>

theorem stale_quote_id:
  assumes "Q \<notin> q_id ` set (quotes state)"
  shows "quoteReviewReducer now state (UPDATE_QUOTE Q updates) = state \<and>
     quoteReviewReducer now state (REMOVE_QUOTE Q) =
       state\<lparr>review := (review state)\<lparr>focusedQuoteId :=
         (if focusedQuoteId (review state) = Some Q then None
          else focusedQuoteId (review state))\<rparr>\<rparr>"
  using assms by (simp add: map_absent filter_absent)

text \<open>The theorem at a list that holds the quote \<open>q1\<close> and an update for \<open>q9\<close>.\<close>

theorem stale_quote_id_witness:
  "''q9'' \<notin> q_id ` set (quotes (initialState\<lparr>quotes :=
      [\<lparr> q_id = ''q1'', q_text = ''For God so loved the world'',
         q_reference = Some ''John 3:16'', isNonBiblical = False, isReviewed = False,
         q_interjections = None, q_startOffset = None, q_endOffset = None,
         q_paragraphId = None \<rparr>]\<rparr>)) \<and>
   quoteReviewReducer 0
     (initialState\<lparr>quotes :=
        [\<lparr> q_id = ''q1'', q_text = ''For God so loved the world'',
           q_reference = Some ''John 3:16'', isNonBiblical = False, isReviewed = False,
           q_interjections = None, q_startOffset = None, q_endOffset = None,
           q_paragraphId = None \<rparr>]\<rparr>)
     (UPDATE_QUOTE ''q9'' \<lparr> u_id = None, u_text = Some ''changed'', u_reference = None,
        u_isNonBiblical = None, u_isReviewed = Some True, u_interjections = None,
        u_startOffset = None, u_endOffset = None, u_paragraphId = None \<rparr>)
   = initialState\<lparr>quotes :=
        [\<lparr> q_id = ''q1'', q_text = ''For God so loved the world'',
           q_reference = Some ''John 3:16'', isNonBiblical = False, isReviewed = False,
           q_interjections = None, q_startOffset = None, q_endOffset = None,
           q_paragraphId = None \<rparr>]\<rparr>"
  using stale_quote_id [where Q = "''q9''" and now = 0 and state = "initialState\<lparr>quotes :=
      [\<lparr> q_id = ''q1'', q_text = ''For God so loved the world'',
         q_reference = Some ''John 3:16'', isNonBiblical = False, isReviewed = False,
         q_interjections = None, q_startOffset = None, q_endOffset = None,
         q_paragraphId = None \<rparr>]\<rparr>"]
  by simp

text \<open>Claim C5 as stated fails for \<open>REMOVE_QUOTE\<close>: in the state with no quotes whose
  focus still names \<open>q1\<close>, removing \<open>q1\<close> changes the state.\<close>

theorem stale_remove_counterexample:
  "''q1'' \<notin> q_id ` set (quotes
      (initialState\<lparr>review := initialReviewState\<lparr>focusedQuoteId := Some ''q1''\<rparr>\<rparr>)) \<and>
   quoteReviewReducer 0
     (initialState\<lparr>review := initialReviewState\<lparr>focusedQuoteId := Some ''q1''\<rparr>\<rparr>)
     (REMOVE_QUOTE ''q1'')
   \<noteq> initialState\<lparr>review := initialReviewState\<lparr>focusedQuoteId := Some ''q1''\<rparr>\<rparr>"
  by (simp add: initialState_def initialReviewState_def)

text \<open>
  Claim C10. \<open>REMOVE_QUOTE\<close> with id \<open>Q\<close> returns a state whose quotes are the old ones
  without every entry of id \<open>Q\<close>, whose \<open>review.focusedQuoteId\<close> is \<open>null\<close> if it was \<open>Q\<close>
  and unchanged otherwise (so it never names the removed quote), and whose other slices,
  and the other fields of \<open>review\<close>, are unchanged.
\<close>

theorem REMOVE_QUOTE_effect:
  "(let state' = quoteReviewReducer now state (REMOVE_QUOTE Q) in
     quotes state' = filter (\<lambda>q. q_id q \<noteq> Q) (quotes state) \<and>
     focusedQuoteId (review state') =
       (if focusedQuoteId (review state) = Some Q then None else focusedQuoteId (review state)) \<and>
     focusedQuoteId (review state') \<noteq> Some Q \<and>
     review state' = (review state)\<lparr>focusedQuoteId := focusedQuoteId (review state')\<rparr> \<and>
     boundaryEdit state' = boundaryEdit state \<and>
     boundaryDrag state' = boundaryDrag state \<and>
     creation state' = creation state \<and>
     interjectionEdit state' = interjectionEdit state \<and>
     panelFilter state' = panelFilter state)"
  by (simp add: Let_def)

text \<open>The theorem at a list that holds \<open>q1\<close> twice, with the focus on \<open>q1\<close>.\<close>

theorem REMOVE_QUOTE_effect_witness:
  "quotes (quoteReviewReducer 0
     (initialState\<lparr>quotes :=
        [\<lparr> q_id = ''q1'', q_text = ''a'', q_reference = None, isNonBiblical = False,
           isReviewed = False, q_interjections = None, q_startOffset = None,
           q_endOffset = None, q_paragraphId = None \<rparr>,
         \<lparr> q_id = ''q2'', q_text = ''b'', q_reference = None, isNonBiblical = False,
           isReviewed = False, q_interjections = None, q_startOffset = None,
           q_endOffset = None, q_paragraphId = None \<rparr>,
         \<lparr> q_id = ''q1'', q_text = ''c'', q_reference = None, isNonBiblical = False,
           isReviewed = False, q_interjections = None, q_startOffset = None,
           q_endOffset = None, q_paragraphId = None \<rparr>],
       review := initialReviewState\<lparr>focusedQuoteId := Some ''q1''\<rparr>\<rparr>)
     (REMOVE_QUOTE ''q1''))
   = [\<lparr> q_id = ''q2'', q_text = ''b'', q_reference = None, isNonBiblical = False,
        isReviewed = False, q_interjections = None, q_startOffset = None,
        q_endOffset = None, q_paragraphId = None \<rparr>] \<and>
   focusedQuoteId (review (quoteReviewReducer 0
     (initialState\<lparr>quotes :=
        [\<lparr> q_id = ''q1'', q_text = ''a'', q_reference = None, isNonBiblical = False,
           isReviewed = False, q_interjections = None, q_startOffset = None,
           q_endOffset = None, q_paragraphId = None \<rparr>,
         \<lparr> q_id = ''q2'', q_text = ''b'', q_reference = None, isNonBiblical = False,
           isReviewed = False, q_interjections = None, q_startOffset = None,
           q_endOffset = None, q_paragraphId = None \<rparr>,
         \<lparr> q_id = ''q1'', q_text = ''c'', q_reference = None, isNonBiblical = False,
           isReviewed = False, q_interjections = None, q_startOffset = None,
           q_endOffset = None, q_paragraphId = None \<rparr>],
       review := initialReviewState\<lparr>focusedQuoteId := Some ''q1''\<rparr>\<rparr>)
     (REMOVE_QUOTE ''q1''))) = None"
  using REMOVE_QUOTE_effect [where now = 0 and Q = "''q1''" and state =
     "initialState\<lparr>quotes :=
        [\<lparr> q_id = ''q1'', q_text = ''a'', q_reference = None, isNonBiblical = False,
           isReviewed = False, q_interjections = None, q_startOffset = None,
           q_endOffset = None, q_paragraphId = None \<rparr>,
         \<lparr> q_id = ''q2'', q_text = ''b'', q_reference = None, isNonBiblical = False,
           isReviewed = False, q_interjections = None, q_startOffset = None,
           q_endOffset = None, q_paragraphId = None \<rparr>,
         \<lparr> q_id = ''q1'', q_text = ''c'', q_reference = None, isNonBiblical = False,
           isReviewed = False, q_interjections = None, q_startOffset = None,
           q_endOffset = None, q_paragraphId = None \<rparr>],
       review := initialReviewState\<lparr>focusedQuoteId := Some ''q1''\<rparr>\<rparr>"]
  by (simp add: Let_def)


section \<open>Properties of the boundary drag\<close>










text \<open>The callbacks of a render that \<open>updateDrag\<close> has made stale. After \<open>startDrag\<close> of the
  end edge at 5 and a render, \<open>updateDrag\<close> to 30 and \<open>endDrag\<close> on the callbacks of that
  same render: \<open>endDrag\<close> still sees the offset 5, and its timer commits nothing. With a
  render between the two calls the timer commits the range from 5 to 30.\<close>

lemma endDrag_stale_render:
  "(let opts = \<lparr> onBoundaryCommit = True, onParagraphMerge = False, documentNodes = None \<rparr>;
        h1 = startDrag 0 ''q1'' EdgeEnd 5
               \<lparr> ctx = initialState, commitTimerRef = None, lastCommittedOffsetRef = None \<rparr>;
        run = dragSteps opts 0 [UpdateDrag 30 0 0] (useBoundaryMutation h1, h1)
    in snd (commitTimerFired opts 0 (endDrag (fst (fst run)) (snd (fst run))))) = [] \<and>
   (let opts = \<lparr> onBoundaryCommit = True, onParagraphMerge = False, documentNodes = None \<rparr>;
        h1 = startDrag 0 ''q1'' EdgeEnd 5
               \<lparr> ctx = initialState, commitTimerRef = None, lastCommittedOffsetRef = None \<rparr>;
        run = dragSteps opts 0 [UpdateDrag 30 0 0, Render] (useBoundaryMutation h1, h1)
    in snd (commitTimerFired opts 0 (endDrag (fst (fst run)) (snd (fst run)))))
   = [OnBoundaryCommit ''q1''
        \<lparr> requiresMerge = False, m_paragraphsToMerge = [],
          newStartOffset = 5, newEndOffset = 30 \<rparr>]"
  by (simp add: Let_def startDrag_def updateDrag_def useBoundaryMutation_def
        snapToWordBoundary_def checkParagraphCrossing_def findSpannedParagraphs_def endDrag_def
        commitTimerFired_def initialState_def initialBoundaryDragState_def)


section \<open>Properties of the merge preview\<close>

lemma map_filter_all_Some: "map get ids = map Some ps \<Longrightarrow> List.map_filter get ids = ps"
  by (induction ids arbitrary: ps) (auto simp: List.map_filter_simps)

lemma sorted_key_hd_Min:
  "xs \<noteq> [] \<Longrightarrow> sorted (map f xs) \<Longrightarrow> f (hd xs) = Min (f ` set xs)"
  by (cases xs) (auto intro!: Min_eqI[symmetric])

lemma sorted_key_last_max:
  "sorted (map f xs) \<Longrightarrow> a \<in> set xs \<Longrightarrow> f a \<le> f (last xs)"
proof (induction xs)
  case Nil
  then show ?case by simp
next
  case (Cons x xs)
  then show ?case by (cases "xs = []") auto
qed

text \<open>
  Claim C4, as amended. For fewer than two ids, or fewer than two ids that resolve,
  \<open>previewMerge\<close> returns \<open>null\<close>. For a list \<open>ids\<close> of two or more ids that all resolve,
  to the paragraphs \<open>ps\<close>, it returns a preview of \<open>ids\<close> whose \<open>mergedText\<close> is the
  trimmed texts of the paragraphs in ascending \<open>startOffset\<close> order joined by one space,
  whose \<open>startOffset\<close> is the smallest \<open>startOffset\<close>, whose \<open>endOffset\<close> is the
  \<open>endOffset\<close> of the paragraph that is last in that order, and whose
  \<open>requiresConfirmation\<close> is the negation of \<open>autoConfirm\<close>. The \<open>endOffset\<close> is the
  largest one where the end offsets of the paragraphs are ordered as their start offsets
  are (as for paragraphs that do not overlap).
\<close>

theorem previewMerge_result:
  "(length ids < 2 \<longrightarrow> previewMerge opts ids = None) \<and>
   (getParagraphInfo opts = Some get \<and> length (List.map_filter get ids) < 2 \<longrightarrow>
      previewMerge opts ids = None) \<and>
   (getParagraphInfo opts = Some get \<and> map get ids = map Some ps \<and> 2 \<le> length ids \<longrightarrow>
      (let ordered = sort_key pi_startOffset ps
       in sorted (map pi_startOffset ordered) \<and> set ordered = set ps \<and>
          length ordered = length ps \<and>
          previewMerge opts ids = Some
            \<lparr> paragraphIds = ids,
              mergedText = join '' '' (map (\<lambda>p. trim (pi_text p)) ordered),
              mp_startOffset = Min (pi_startOffset ` set ps),
              mp_endOffset = pi_endOffset (last ordered),
              requiresConfirmation = (\<not> autoConfirm_of opts) \<rparr> \<and>
          ((\<forall>a \<in> set ps. \<forall>b \<in> set ps.
               pi_startOffset a \<le> pi_startOffset b \<longrightarrow> pi_endOffset a \<le> pi_endOffset b) \<longrightarrow>
           pi_endOffset (last ordered) = Max (pi_endOffset ` set ps))))"
proof (intro conjI impI)
  show "length ids < 2 \<Longrightarrow> previewMerge opts ids = None"
    by (simp add: previewMerge_def split: option.splits)
next
  assume "getParagraphInfo opts = Some get \<and> length (List.map_filter get ids) < 2"
  then show "previewMerge opts ids = None"
    by (simp add: previewMerge_def resolveParagraphs_def Let_def)
next
  assume a: "getParagraphInfo opts = Some get \<and> map get ids = map Some ps \<and> 2 \<le> length ids"
  define ordered where "ordered = sort_key pi_startOffset ps"
  from a have mf: "List.map_filter get ids = ps" by (simp add: map_filter_all_Some)
  from a have "length (map get ids) = length (map Some ps)" by simp
  then have len: "length ps = length ids" by simp
  have so: "sorted (map pi_startOffset ordered)" "set ordered = set ps"
    "length ordered = length ps"
    by (simp_all add: ordered_def)
  have ne: "ordered \<noteq> []" using so(3) len a by auto
  have r: "resolveParagraphs get ids = ordered"
    by (simp add: resolveParagraphs_def mf ordered_def)
  have st: "(case ordered of [] \<Rightarrow> 0 | firstParagraph # _ \<Rightarrow> pi_startOffset firstParagraph)
            = Min (pi_startOffset ` set ps)"
  proof -
    have "pi_startOffset (hd ordered) = Min (pi_startOffset ` set ps)"
      using sorted_key_hd_Min[OF ne so(1)] so(2) by simp
    then show ?thesis using ne by (cases ordered) simp_all
  qed
  have pm: "previewMerge opts ids = Some
            \<lparr> paragraphIds = ids,
              mergedText = join '' '' (map (\<lambda>p. trim (pi_text p)) ordered),
              mp_startOffset = Min (pi_startOffset ` set ps),
              mp_endOffset = pi_endOffset (last ordered),
              requiresConfirmation = (\<not> autoConfirm_of opts) \<rparr>"
    using a ne so(3) len by (simp add: previewMerge_def r Let_def st)
  have mx: "pi_endOffset (last ordered) = Max (pi_endOffset ` set ps)"
    if mono: "\<forall>a \<in> set ps. \<forall>b \<in> set ps.
               pi_startOffset a \<le> pi_startOffset b \<longrightarrow> pi_endOffset a \<le> pi_endOffset b"
  proof -
    have l: "last ordered \<in> set ps" using ne so(2) last_in_set by blast
    have "\<forall>a \<in> set ps. pi_endOffset a \<le> pi_endOffset (last ordered)"
      using mono l sorted_key_last_max[OF so(1)] so(2) by blast
    then show ?thesis using l by (intro Max_eqI[symmetric]) auto
  qed
  show "(let ordered = sort_key pi_startOffset ps
       in sorted (map pi_startOffset ordered) \<and> set ordered = set ps \<and>
          length ordered = length ps \<and>
          previewMerge opts ids = Some
            \<lparr> paragraphIds = ids,
              mergedText = join '' '' (map (\<lambda>p. trim (pi_text p)) ordered),
              mp_startOffset = Min (pi_startOffset ` set ps),
              mp_endOffset = pi_endOffset (last ordered),
              requiresConfirmation = (\<not> autoConfirm_of opts) \<rparr> \<and>
          ((\<forall>a \<in> set ps. \<forall>b \<in> set ps.
               pi_startOffset a \<le> pi_startOffset b \<longrightarrow> pi_endOffset a \<le> pi_endOffset b) \<longrightarrow>
           pi_endOffset (last ordered) = Max (pi_endOffset ` set ps)))"
    unfolding Let_def ordered_def[symmetric] using so pm mx by blast
qed

text \<open>The theorem on the two paragraphs of the test suite, asked for in reverse
  order.\<close>

theorem previewMerge_result_witness:
  "map (map_of
          [(''para-1'', \<lparr> pi_id = ''para-1'', pi_text = ''First paragraph.'',
                          pi_startOffset = 0, pi_endOffset = 16 \<rparr>),
           (''para-2'', \<lparr> pi_id = ''para-2'', pi_text = ''Second paragraph.'',
                          pi_startOffset = 17, pi_endOffset = 34 \<rparr>)])
       [''para-2'', ''para-1'']
   = map Some
       [\<lparr> pi_id = ''para-2'', pi_text = ''Second paragraph.'',
          pi_startOffset = 17, pi_endOffset = 34 \<rparr>,
        \<lparr> pi_id = ''para-1'', pi_text = ''First paragraph.'',
          pi_startOffset = 0, pi_endOffset = 16 \<rparr>] \<and>
   previewMerge
     \<lparr> getParagraphInfo = Some (map_of
          [(''para-1'', \<lparr> pi_id = ''para-1'', pi_text = ''First paragraph.'',
                          pi_startOffset = 0, pi_endOffset = 16 \<rparr>),
           (''para-2'', \<lparr> pi_id = ''para-2'', pi_text = ''Second paragraph.'',
                          pi_startOffset = 17, pi_endOffset = 34 \<rparr>)]),
       onMergeConfirmed = False, autoConfirm = None \<rparr>
     [''para-2'', ''para-1'']
   = Some \<lparr> paragraphIds = [''para-2'', ''para-1''],
            mergedText = ''First paragraph. Second paragraph.'',
            mp_startOffset = 0, mp_endOffset = 34, requiresConfirmation = True \<rparr>"
  using previewMerge_result [where ids = "[''para-2'', ''para-1'']"
      and opts = "\<lparr> getParagraphInfo = Some (map_of
          [(''para-1'', \<lparr> pi_id = ''para-1'', pi_text = ''First paragraph.'',
                          pi_startOffset = 0, pi_endOffset = 16 \<rparr>),
           (''para-2'', \<lparr> pi_id = ''para-2'', pi_text = ''Second paragraph.'',
                          pi_startOffset = 17, pi_endOffset = 34 \<rparr>)]),
       onMergeConfirmed = False, autoConfirm = None \<rparr>"
      and get = "map_of
          [(''para-1'', \<lparr> pi_id = ''para-1'', pi_text = ''First paragraph.'',
                          pi_startOffset = 0, pi_endOffset = 16 \<rparr>),
           (''para-2'', \<lparr> pi_id = ''para-2'', pi_text = ''Second paragraph.'',
                          pi_startOffset = 17, pi_endOffset = 34 \<rparr>)]"
      and ps = "[\<lparr> pi_id = ''para-2'', pi_text = ''Second paragraph.'',
          pi_startOffset = 17, pi_endOffset = 34 \<rparr>,
        \<lparr> pi_id = ''para-1'', pi_text = ''First paragraph.'',
          pi_startOffset = 0, pi_endOffset = 16 \<rparr>]"]
  by (simp add: Let_def trim_def isWhiteSpace_def autoConfirm_of_def)

text \<open>Claim C4 as stated fails for the \<open>endOffset\<close>: of a paragraph from 0 to 100 and a
  paragraph from 10 to 20 the preview ends at 20, and the largest \<open>endOffset\<close> is 100.\<close>

theorem previewMerge_endOffset_counterexample:
  "map_option mp_endOffset
     (previewMerge
        \<lparr> getParagraphInfo = Some (map_of
             [(''a'', \<lparr> pi_id = ''a'', pi_text = ''A'', pi_startOffset = 0, pi_endOffset = 100 \<rparr>),
              (''b'', \<lparr> pi_id = ''b'', pi_text = ''B'', pi_startOffset = 10, pi_endOffset = 20 \<rparr>)]),
          onMergeConfirmed = False, autoConfirm = None \<rparr>
        [''a'', ''b''])
   = Some 20 \<and> Max {100, 20 :: int} = 100"
  by (simp add: previewMerge_def resolveParagraphs_def List.map_filter_simps)

section \<open>The matcher and the language of a pattern\<close>

lemma star_cases_nonempty:
  "u \<in> star L \<Longrightarrow> u = [] \<or> (\<exists>w v. w \<in> L \<and> w \<noteq> [] \<and> v \<in> star L \<and> u = w @ v)"
proof (induction rule: star.induct)
  case star_empty
  show ?case by simp
next
  case (star_step u v)
  show ?case
  proof (cases "u = []")
    case True
    with star_step.IH show ?thesis by simp
  next
    case False
    with star_step.hyps show ?thesis by blast
  qed
qed

lemma rests_Cons [simp]: "rests (st # sts) = insert (fst (snd st)) (rests sts)"
  by (simp add: rests_def)

lemma rests_Nil [simp]: "rests [] = {}"
  by (simp add: rests_def)

lemma rests_append [simp]: "rests (xs @ ys) = rests xs \<union> rests ys"
  by (auto simp: rests_def)

lemma rests_concat_map: "rests (concat (map f sts)) = (\<Union>st \<in> set sts. rests (f st))"
  by (auto simp: rests_def)

lemma star_iter_rests:
  assumes f: "\<And>pre rest caps. rests (f (pre, rest, caps)) = {rest'. \<exists>w \<in> L. rest = w @ rest'}"
  shows "length rest \<le> n \<Longrightarrow>
         rests (star_iter f n (pre, rest, caps)) = {rest'. \<exists>w \<in> star L. rest = w @ rest'}"
proof (induction n arbitrary: pre rest caps)
  case 0
  then have "rest = []" by simp
  then show ?case by (auto intro: star_empty)
next
  case (Suc n)
  let ?st = "(pre, rest, caps)"
  let ?prog = "filter (\<lambda>st'. length (fst (snd st')) < length (fst (snd ?st))) (f ?st)"
  have step: "rests (star_iter f n st') = {rest'. \<exists>v \<in> star L. fst (snd st') = v @ rest'}"
    if "st' \<in> set ?prog" for st'
  proof -
    obtain p' r' c' where st': "st' = (p', r', c')" by (cases st') auto
    with that Suc.prems have "length r' \<le> n" by simp
    from Suc.IH[OF this, of p' c'] st' show ?thesis by simp
  qed
  have unfold: "rests (star_iter f (Suc n) ?st) = (\<Union>st' \<in> set ?prog. rests (star_iter f n st')) \<union> {rest}"
    by (simp add: rests_concat_map)
  show ?case
  proof (intro set_eqI iffI)
    fix x assume "x \<in> rests (star_iter f (Suc n) ?st)"
    then consider (a) "x = rest" | (b) st' where "st' \<in> set ?prog" "x \<in> rests (star_iter f n st')"
      unfolding unfold by blast
    then show "x \<in> {rest'. \<exists>w \<in> star L. rest = w @ rest'}"
    proof cases
      case a
      then show ?thesis by (auto intro: star_empty)
    next
      case b
      from b(2) step[OF b(1)] obtain v where v: "v \<in> star L" "fst (snd st') = v @ x" by auto
      from b(1) have "fst (snd st') \<in> rests (f ?st)" by (auto simp: rests_def)
      with f obtain w where w: "w \<in> L" "rest = w @ fst (snd st')" by auto
      from v w have "rest = (w @ v) @ x" "w @ v \<in> star L" by (auto intro: star_step)
      then show ?thesis by blast
    qed
  next
    fix x assume "x \<in> {rest'. \<exists>w \<in> star L. rest = w @ rest'}"
    then obtain u where u: "u \<in> star L" "rest = u @ x" by auto
    from star_cases_nonempty[OF u(1)] show "x \<in> rests (star_iter f (Suc n) ?st)"
    proof
      assume "u = []"
      with u show ?thesis unfolding unfold by simp
    next
      assume "\<exists>w v. w \<in> L \<and> w \<noteq> [] \<and> v \<in> star L \<and> u = w @ v"
      then obtain w v where wv: "w \<in> L" "w \<noteq> []" "v \<in> star L" "u = w @ v" by blast
      with u have "rest = w @ (v @ x)" by simp
      with wv(1) f have "v @ x \<in> rests (f ?st)" by blast
      then obtain st' where st': "st' \<in> set (f ?st)" "fst (snd st') = v @ x"
        by (auto simp: rests_def)
      have "length (v @ x) < length rest" using wv(2) u wv(4) by simp
      with st' have p: "st' \<in> set ?prog" by simp
      from step[OF p] st'(2) wv(3) have "x \<in> rests (star_iter f n st')" by auto
      with p show ?thesis unfolding unfold by blast
    qed
  qed
qed

lemma matches_rests:
  "assertionFree r \<Longrightarrow>
   rests (matches r (pre, rest, caps)) = {rest'. \<exists>w \<in> lang r. rest = w @ rest'}"
proof (induction r arbitrary: pre rest caps)
  case Eps
  then show ?case by simp
next
  case (Class k)
  then show ?case by (cases rest) auto
next
  case (Seq r1 r2)
  have a: "rests (matches r1 (pre, rest, caps)) = {rest'. \<exists>w \<in> lang r1. rest = w @ rest'}"
    using Seq by simp
  have b: "rests (matches r2 st) = {rest'. \<exists>w \<in> lang r2. fst (snd st) = w @ rest'}" for st
    using Seq.IH(2)[of "fst st" "fst (snd st)" "snd (snd st)"] Seq.prems by simp
  have "rests (matches (Seq r1 r2) (pre, rest, caps)) =
        (\<Union>st \<in> set (matches r1 (pre, rest, caps)). {rest'. \<exists>w \<in> lang r2. fst (snd st) = w @ rest'})"
    by (simp add: rests_concat_map b)
  also have "\<dots> = (\<Union>m \<in> rests (matches r1 (pre, rest, caps)). {rest'. \<exists>w \<in> lang r2. m = w @ rest'})"
    by (auto simp: rests_def)
  also have "\<dots> = {rest'. \<exists>w \<in> lang (Seq r1 r2). rest = w @ rest'}"
  proof (intro set_eqI iffI)
    fix x assume "x \<in> (\<Union>m \<in> rests (matches r1 (pre, rest, caps)).
                        {rest'. \<exists>w \<in> lang r2. m = w @ rest'})"
    then obtain u v where "u \<in> lang r1" "v \<in> lang r2" "rest = u @ v @ x"
      unfolding a by auto
    then have "u @ v \<in> lang (Seq r1 r2)" "rest = (u @ v) @ x" by auto
    then show "x \<in> {rest'. \<exists>w \<in> lang (Seq r1 r2). rest = w @ rest'}" by blast
  next
    fix x assume "x \<in> {rest'. \<exists>w \<in> lang (Seq r1 r2). rest = w @ rest'}"
    then obtain u v where uv: "u \<in> lang r1" "v \<in> lang r2" "rest = u @ v @ x" by auto
    then have "v @ x \<in> rests (matches r1 (pre, rest, caps))" unfolding a by blast
    with uv(2) show "x \<in> (\<Union>m \<in> rests (matches r1 (pre, rest, caps)).
                        {rest'. \<exists>w \<in> lang r2. m = w @ rest'})" by blast
  qed
  finally show ?case .
next
  case (Alt r1 r2)
  then show ?case by auto
next
  case (Optional r)
  then show ?case by auto
next
  case (Star r)
  have f: "\<And>pre rest caps. rests (matches r (pre, rest, caps)) = {rest'. \<exists>w \<in> lang r. rest = w @ rest'}"
    using Star by simp
  show ?case using star_iter_rests[of "matches r" "lang r", OF f, of rest "length rest" pre caps]
    by simp
next
  case (Group i r)
  have "rests (matches (Group i r) (pre, rest, caps)) = rests (matches r (pre, rest, caps))"
    by (force simp: rests_def image_iff split: prod.splits)
  then show ?case using Group by simp
next
  case WordBoundary
  then show ?case by simp
qed

lemma match_anchored_iff:
  assumes "assertionFree r"
  shows "match_anchored r s \<noteq> None \<longleftrightarrow> s \<in> lang r"
proof -
  have "match_anchored r s \<noteq> None \<longleftrightarrow> [] \<in> rests (matches r ([], s, []))"
    by (force simp: match_anchored_def find_None_iff rests_def image_iff split: prod.splits)
  also have "\<dots> \<longleftrightarrow> s \<in> lang r"
    using matches_rests[OF assms, of "[]" s "[]"] by auto
  finally show ?thesis .
qed

lemma REFERENCE_PATTERN_assertionFree: "assertionFree REFERENCE_PATTERN"
  by (simp add: REFERENCE_PATTERN_def Plus_def)

lemma parseReference_valid_iff: "valid (parseReference s) \<longleftrightarrow> trim s \<in> referenceGrammar"
  using match_anchored_iff[OF REFERENCE_PATTERN_assertionFree, of "trim s"]
  by (auto simp: parseReference_def referenceGrammar_def split: option.splits)

text \<open>
  Claim C3. \<open>parseReference\<close> accepts exactly the strings that, once trimmed, match the
  grammar of references; \<open>John 3:16\<close> and \<open>1 Corinthians 13:4-7\<close> parse to their book,
  chapter and verses; \<open>John\<close>, \<open>3:16\<close> and the empty string are invalid; and for an
  input that does not match, the result is \<open>{valid: false}\<close>, \<open>performLookup\<close> does not
  call the lookup service, and \<open>updateReference\<close> does not schedule a lookup.
\<close>

theorem parseReference_grammar:
  "(valid (parseReference s) \<longleftrightarrow> trim s \<in> referenceGrammar) \<and>
   parseReference ''John 3:16'' =
     \<lparr> valid = True, p_book = Some ''John'', p_chapter = Some (Number 3),
       p_verseStart = Some (Number 16), p_verseEnd = None \<rparr> \<and>
   parseReference ''1 Corinthians 13:4-7'' =
     \<lparr> valid = True, p_book = Some ''1 Corinthians'', p_chapter = Some (Number 13),
       p_verseStart = Some (Number 4), p_verseEnd = Some (Number 7) \<rparr> \<and>
   parseReference ''John'' =
     \<lparr> valid = False, p_book = None, p_chapter = None, p_verseStart = None,
       p_verseEnd = None \<rparr> \<and>
   parseReference ''3:16'' =
     \<lparr> valid = False, p_book = None, p_chapter = None, p_verseStart = None,
       p_verseEnd = None \<rparr> \<and>
   parseReference [] =
     \<lparr> valid = False, p_book = None, p_chapter = None, p_verseStart = None,
       p_verseEnd = None \<rparr> \<and>
   (trim s \<notin> referenceGrammar \<longrightarrow>
      parseReference s =
        \<lparr> valid = False, p_book = None, p_chapter = None, p_verseStart = None,
          p_verseEnd = None \<rparr> \<and>
      (\<forall>r. CallLookupVerse r \<notin> set (performLookup hasLookup s)) \<and>
      \<not> snd (updateReference s))"
proof -
  have e1: "parseReference ''John 3:16'' =
     \<lparr> valid = True, p_book = Some ''John'', p_chapter = Some (Number 3),
       p_verseStart = Some (Number 16), p_verseEnd = None \<rparr>"
    by code_simp
  have e2: "parseReference ''1 Corinthians 13:4-7'' =
     \<lparr> valid = True, p_book = Some ''1 Corinthians'', p_chapter = Some (Number 13),
       p_verseStart = Some (Number 4), p_verseEnd = Some (Number 7) \<rparr>"
    by code_simp
  have e3: "parseReference ''John'' =
     \<lparr> valid = False, p_book = None, p_chapter = None, p_verseStart = None,
       p_verseEnd = None \<rparr>"
    by code_simp
  have e4: "parseReference ''3:16'' =
     \<lparr> valid = False, p_book = None, p_chapter = None, p_verseStart = None,
       p_verseEnd = None \<rparr>"
    by code_simp
  have e5: "parseReference [] =
     \<lparr> valid = False, p_book = None, p_chapter = None, p_verseStart = None,
       p_verseEnd = None \<rparr>"
    by code_simp
  have inv: "parseReference s =
        \<lparr> valid = False, p_book = None, p_chapter = None, p_verseStart = None,
          p_verseEnd = None \<rparr> \<and>
      (\<forall>r. CallLookupVerse r \<notin> set (performLookup hasLookup s)) \<and>
      \<not> snd (updateReference s)"
    if "trim s \<notin> referenceGrammar"
  proof -
    from that have nv: "\<not> valid (parseReference s)"
      by (simp add: parseReference_valid_iff)
    then have "match_anchored REFERENCE_PATTERN (trim s) = None"
      by (auto simp: parseReference_def split: option.splits)
    then have "parseReference s =
        \<lparr> valid = False, p_book = None, p_chapter = None, p_verseStart = None,
          p_verseEnd = None \<rparr>"
      by (simp add: parseReference_def)
    with nv show ?thesis by (simp add: performLookup_def updateReference_def)
  qed
  show ?thesis
  proof (intro conjI)
    show "valid (parseReference s) \<longleftrightarrow> trim s \<in> referenceGrammar"
      by (rule parseReference_valid_iff)
    show "trim s \<notin> referenceGrammar \<longrightarrow>
      parseReference s =
        \<lparr> valid = False, p_book = None, p_chapter = None, p_verseStart = None,
          p_verseEnd = None \<rparr> \<and>
      (\<forall>r. CallLookupVerse r \<notin> set (performLookup hasLookup s)) \<and>
      \<not> snd (updateReference s)"
      by (rule impI) (rule inv)
  qed (rule e1 e2 e3 e4 e5)+
qed

text \<open>The theorem at \<open>John 3\<close>, which has no verse.\<close>

theorem parseReference_grammar_witness:
  "trim ''John 3'' \<notin> referenceGrammar \<and>
   parseReference ''John 3'' =
     \<lparr> valid = False, p_book = None, p_chapter = None, p_verseStart = None,
       p_verseEnd = None \<rparr> \<and>
   CallLookupVerse ''John 3'' \<notin> set (performLookup True ''John 3'')"
proof -
  have "\<not> valid (parseReference ''John 3'')" by code_simp
  then have n: "trim ''John 3'' \<notin> referenceGrammar"
    by (simp only: parseReference_valid_iff not_False_eq_True)
  note t = parseReference_grammar [where s = "''John 3''" and hasLookup = True,
      THEN conjunct2, THEN conjunct2, THEN conjunct2, THEN conjunct2, THEN conjunct2,
      THEN conjunct2, THEN mp, OF n]
  from t have a: "parseReference ''John 3'' =
     \<lparr> valid = False, p_book = None, p_chapter = None, p_verseStart = None,
       p_verseEnd = None \<rparr>"
    by (rule conjunct1)
  from t have "\<forall>r. CallLookupVerse r \<notin> set (performLookup True ''John 3'')"
    by (rule conjunct2 [THEN conjunct1])
  then have b: "CallLookupVerse ''John 3'' \<notin> set (performLookup True ''John 3'')"
    by (rule spec)
  from n a b show ?thesis by (intro conjI)
qed

section \<open>Properties of the interjection detection\<close>

lemma star_iter_length:
  assumes f: "\<And>st st'. st' \<in> set (f st) \<Longrightarrow> length (fst (snd st')) \<le> length (fst (snd st))"
  shows "st' \<in> set (star_iter f n st) \<Longrightarrow> length (fst (snd st')) \<le> length (fst (snd st))"
proof (induction n arbitrary: st)
  case 0
  then show ?case by simp
next
  case (Suc n)
  from Suc.prems consider (a) "st' = st"
    | (b) st1 where "st1 \<in> set (f st)" "length (fst (snd st1)) < length (fst (snd st))"
        "st' \<in> set (star_iter f n st1)"
    by auto
  then show ?case
  proof cases
    case a
    then show ?thesis by simp
  next
    case b
    from Suc.IH[OF b(3)] b(2) show ?thesis by simp
  qed
qed

lemma matches_consume:
  "st' \<in> set (matches r st) \<Longrightarrow> length (fst (snd st')) + minLen r \<le> length (fst (snd st))"
proof (induction r arbitrary: st st')
  case Eps
  then show ?case by simp
next
  case (Class k)
  obtain pre rest caps where st: "st = (pre, rest, caps)" by (cases st) auto
  with Class show ?case by (cases rest) (auto split: if_splits)
next
  case (Seq r1 r2)
  from Seq.prems obtain st1 where "st1 \<in> set (matches r1 st)" "st' \<in> set (matches r2 st1)"
    by auto
  from Seq.IH(1)[OF this(1)] Seq.IH(2)[OF this(2)] show ?case by simp
next
  case (Alt r1 r2)
  from Alt.prems have "st' \<in> set (matches r1 st) \<or> st' \<in> set (matches r2 st)" by simp
  then show ?case
  proof
    assume "st' \<in> set (matches r1 st)"
    from Alt.IH(1)[OF this] show ?thesis by simp
  next
    assume "st' \<in> set (matches r2 st)"
    from Alt.IH(2)[OF this] show ?thesis by simp
  qed
next
  case (Optional r)
  from Optional.prems have "st' \<in> set (matches r st) \<or> st' = st" by auto
  then show ?case
  proof
    assume "st' \<in> set (matches r st)"
    from Optional.IH[OF this] show ?thesis by simp
  next
    assume "st' = st"
    then show ?thesis by simp
  qed
next
  case (Star r)
  have "length (fst (snd b)) \<le> length (fst (snd a))" if "b \<in> set (matches r a)" for a b
    using Star.IH[OF that] by simp
  from star_iter_length[of "matches r", OF this] Star.prems show ?case by simp
next
  case (Group i r)
  obtain pre rest caps where st: "st = (pre, rest, caps)" by (cases st) auto
  from Group.prems st obtain st1 where "st1 \<in> set (matches r st)" "fst (snd st') = fst (snd st1)"
    by (auto split: prod.splits)
  with Group.IH[OF this(1)] show ?case by simp
next
  case WordBoundary
  obtain pre rest caps where st: "st = (pre, rest, caps)" by (cases st) auto
  with WordBoundary show ?case by (auto split: if_splits)
qed

lemma exec_from_found:
  "exec_from r pre rest = Some (st0, st1) \<Longrightarrow>
   length (fst (snd st0)) \<le> length rest \<and> st1 \<in> set (matches r st0)"
proof (induction r pre rest rule: exec_from.induct)
  case (1 r pre rest)
  show ?case
  proof (cases "matches r (pre, rest, [])")
    case (Cons st sts)
    with 1(2) show ?thesis by auto
  next
    case Nil
    show ?thesis
    proof (cases rest)
      case Nil
      with \<open>matches r (pre, rest, []) = []\<close> 1(2) show ?thesis by simp
    next
      case (Cons c cs)
      with \<open>matches r (pre, rest, []) = []\<close> 1(2) have "exec_from r (c # pre) cs = Some (st0, st1)"
        by simp
      from 1(1)[OF \<open>matches r (pre, rest, []) = []\<close> Cons this] Cons show ?thesis by simp
    qed
  qed
qed

lemma execAll_ends:
  "0 < minLen r \<Longrightarrow> \<exists>ms. execAll r pre rest = Some ms"
proof (induction r pre rest rule: execAll.induct)
  case (1 r pre rest)
  show ?case
  proof (cases "exec_from r pre rest")
    case None
    then show ?thesis by simp
  next
    case (Some found)
    obtain pre0 rest0 caps0 pre1 rest1 caps1
      where found: "found = ((pre0, rest0, caps0), (pre1, rest1, caps1))"
      by (cases found) auto
    from exec_from_found[OF Some[unfolded found]]
    have le: "length rest0 \<le> length rest"
      and m: "(pre1, rest1, caps1) \<in> set (matches r (pre0, rest0, caps0))"
      by simp_all
    from matches_consume[OF m] have "length rest1 + minLen r \<le> length rest0" by simp
    with 1(2) le have lt: "length rest1 < length rest" by linarith
    from 1(1)[OF Some[unfolded found] refl refl refl refl refl lt 1(2)] obtain ms
      where "execAll r pre1 rest1 = Some ms" by blast
    with Some found lt show ?thesis by simp
  qed
qed

lemma INTERJECTION_PATTERNS_consume:
  "\<forall>p \<in> set INTERJECTION_PATTERNS. 0 < minLen (pattern p)"
  by (simp add: INTERJECTION_PATTERNS_def interjectionPattern_def wordPattern_def)

lemma collectMatches_ends:
  "\<forall>p \<in> set ps. 0 < minLen (pattern p) \<Longrightarrow> \<exists>ms. collectMatches str ps = Some ms"
proof (induction ps)
  case Nil
  then show ?case by simp
next
  case (Cons p ps)
  from Cons.prems have "0 < minLen (pattern p)" by simp
  from execAll_ends[OF this, of "[]" str] obtain xs where "execAll (pattern p) [] str = Some xs"
    by blast
  moreover from Cons obtain ms where "collectMatches str ps = Some ms" by auto
  ultimately show ?case by (simp add: patternMatches_def)
qed

lemma findMatches_ends: "\<exists>ms. findMatches str = Some ms"
  using collectMatches_ends[OF INTERJECTION_PATTERNS_consume, of str]
  by (auto simp: findMatches_def)

lemma set_candidate_length [simp]: "length (set_candidate cs j f) = length cs"
  by (simp add: set_candidate_def)

lemma set_candidate_nth:
  "i < length cs \<Longrightarrow> set_candidate cs j f ! i = (if j = int i then f (cs ! i) else cs ! i)"
  by (auto simp: set_candidate_def nth_list_update)

text \<open>
  Claim C7, as amended. \<open>detectInterjections\<close> returns, for every text, and its
  candidates are the matches that \<open>findMatches\<close> finds whose confidence reaches the
  threshold, in the same order, so the threshold only filters; every candidate it returns
  has \<open>confirmed = false\<close> and \<open>rejected = false\<close>, whatever its confidence. In the
  reducer, after any action, a pending candidate that is confirmed either was there
  before, at the same index and confirmed, or the action was
  \<open>CONFIRM_INTERJECTION_CANDIDATE\<close> for its index, or the action was
  \<open>SET_PENDING_INTERJECTION_CANDIDATES\<close> and the candidate came, already confirmed, in the
  list that the caller supplied. (The detection is a function of the text and the
  options: it has no access to the document.)
\<close>

theorem interjection_confirmation:
  "(\<exists>ms. findMatches str = Some ms \<and>
         detectInterjections opts str = Some (map toCandidate
           (filter (\<lambda>m. (if highConfidenceOnly_of opts then HIGH_CONFIDENCE_THRESHOLD
                          else threshold_of opts) \<le> im_confidence m) ms))) \<and>
   (\<forall>cs. detectInterjections opts str = Some cs \<longrightarrow>
      (\<forall>c \<in> set cs. \<not> confirmed c \<and> \<not> rejected c \<and>
         (if highConfidenceOnly_of opts then HIGH_CONFIDENCE_THRESHOLD
          else threshold_of opts) \<le> c_confidence c)) \<and>
   (let cs = pendingCandidates (interjectionEdit state);
        cs' = pendingCandidates (interjectionEdit (quoteReviewReducer now state action))
    in \<forall>i < length cs'. confirmed (cs' ! i) \<longrightarrow>
         (i < length cs \<and> cs' ! i = cs ! i) \<or>
         action = CONFIRM_INTERJECTION_CANDIDATE (int i) \<or>
         action = SET_PENDING_INTERJECTION_CANDIDATES cs')"
proof (intro conjI)
  from findMatches_ends obtain ms where ms: "findMatches str = Some ms" by blast
  then show "\<exists>ms. findMatches str = Some ms \<and>
         detectInterjections opts str = Some (map toCandidate
           (filter (\<lambda>m. (if highConfidenceOnly_of opts then HIGH_CONFIDENCE_THRESHOLD
                          else threshold_of opts) \<le> im_confidence m) ms))"
    by (simp add: detectInterjections_def Let_def)
  show "\<forall>cs. detectInterjections opts str = Some cs \<longrightarrow>
      (\<forall>c \<in> set cs. \<not> confirmed c \<and> \<not> rejected c \<and>
         (if highConfidenceOnly_of opts then HIGH_CONFIDENCE_THRESHOLD
          else threshold_of opts) \<le> c_confidence c)"
    using ms by (auto simp: detectInterjections_def Let_def toCandidate_def)
  show "(let cs = pendingCandidates (interjectionEdit state);
        cs' = pendingCandidates (interjectionEdit (quoteReviewReducer now state action))
    in \<forall>i < length cs'. confirmed (cs' ! i) \<longrightarrow>
         (i < length cs \<and> cs' ! i = cs ! i) \<or>
         action = CONFIRM_INTERJECTION_CANDIDATE (int i) \<or>
         action = SET_PENDING_INTERJECTION_CANDIDATES cs')"
    unfolding Let_def
    by (cases action)
       (auto simp: set_candidate_nth initialInterjectionEditState_def initialState_def)
qed

text \<open>The theorem on the text \<open>oh, amen\<close> with the default options: \<open>oh\<close> has the
  confidence 0.40 and is filtered out; \<open>amen\<close> has the confidence 0.95 and is returned,
  not confirmed.\<close>

theorem interjection_confirmation_witness:
  "detectInterjections \<lparr> threshold = None, highConfidenceOnly = None \<rparr> ''oh, amen''
     = Some [\<lparr> c_text = ''amen'', c_startOffset = 4, c_endOffset = 8, confirmed = False,
               rejected = False, c_confidence = 95/100,
               c_context = Some ''Common affirmation'' \<rparr>] \<and>
   \<not> confirmed \<lparr> c_text = ''amen'', c_startOffset = 4, c_endOffset = 8, confirmed = False,
               rejected = False, c_confidence = 95/100,
               c_context = Some ''Common affirmation'' \<rparr> \<and>
   pendingCandidates (interjectionEdit (quoteReviewReducer 0
     (initialState\<lparr>interjectionEdit := initialInterjectionEditState\<lparr>pendingCandidates :=
        [\<lparr> c_text = ''amen'', c_startOffset = 4, c_endOffset = 8, confirmed = False,
           rejected = False, c_confidence = 95/100,
           c_context = Some ''Common affirmation'' \<rparr>]\<rparr>\<rparr>)
     (CONFIRM_INTERJECTION_CANDIDATE 0)))
     = [\<lparr> c_text = ''amen'', c_startOffset = 4, c_endOffset = 8, confirmed = True,
          rejected = False, c_confidence = 95/100,
          c_context = Some ''Common affirmation'' \<rparr>]"
proof -
  have d: "detectInterjections \<lparr> threshold = None, highConfidenceOnly = None \<rparr> ''oh, amen''
     = Some [\<lparr> c_text = ''amen'', c_startOffset = 4, c_endOffset = 8, confirmed = False,
               rejected = False, c_confidence = 95/100,
               c_context = Some ''Common affirmation'' \<rparr>]"
    by code_simp
  show ?thesis
    using interjection_confirmation [where str = "''oh, amen''"
        and opts = "\<lparr> threshold = None, highConfidenceOnly = None \<rparr>" and now = 0
        and action = "CONFIRM_INTERJECTION_CANDIDATE 0"
        and state = "initialState\<lparr>interjectionEdit :=
          initialInterjectionEditState\<lparr>pendingCandidates :=
            [\<lparr> c_text = ''amen'', c_startOffset = 4, c_endOffset = 8, confirmed = False,
               rejected = False, c_confidence = 95/100,
               c_context = Some ''Common affirmation'' \<rparr>]\<rparr>\<rparr>"]
    by (simp add: d set_candidate_def)
qed

text \<open>Claim C7 as stated fails in its second part: marking a selection by hand puts a
  candidate that is already confirmed into the pending list, through
  \<open>SET_PENDING_INTERJECTION_CANDIDATES\<close>; no \<open>CONFIRM_INTERJECTION_CANDIDATE\<close> is
  dispatched.\<close>

theorem manual_mark_counterexample:
  "markSelectionAsInterjection initialInterjectionEditState ''Amen'' 0 4 =
     [SET_INTERJECTION_SELECTION (Some ''Amen'') (Some (0, 4)),
      SET_PENDING_INTERJECTION_CANDIDATES
        [\<lparr> c_text = ''Amen'', c_startOffset = 0, c_endOffset = 4, confirmed = True,
           rejected = False, c_confidence = 1, c_context = Some ''Manually marked'' \<rparr>]] \<and>
   confirmed (pendingCandidates (interjectionEdit (dispatchAll 0 initialState
     (markSelectionAsInterjection initialInterjectionEditState ''Amen'' 0 4))) ! 0)"
  by (simp add: markSelectionAsInterjection_def initialInterjectionEditState_def
        initialState_def dispatchAll_def)

text \<open>The text of the specification's example: three candidates, in ascending order of
  offset.\<close>

lemma detectInterjections_example:
  "map_option (map (\<lambda>c. (c_text c, c_startOffset c, c_confidence c)))
     (detectInterjections \<lparr> threshold = None, highConfidenceOnly = None \<rparr>
        ''Blessed are the poor, amen, in spirit, hallelujah, for theirs'')
   = Some [(''amen'', 22, 95/100), (''hallelujah'', 39, 95/100)]"
  by code_simp

section \<open>Properties of the conversion from the editor tree\<close>

lemma tipTapJsonToAst_degenerate:
  assumes "doc_content doc = ContentMissing \<or> doc_content doc = ContentNotArray"
  shows "fst (tipTapJsonToAst doc options existingRoot now n) =
     \<lparr> success = True,
       data = Some \<lparr> r_id = fst (rootIdFor options existingRoot n), r_version = 1,
                     r_updatedAt = now,
                     title = existing title existingRoot,
                     biblePassage = existing biblePassage existingRoot,
                     speaker = existing speaker existingRoot,
                     tags = None, children = [] \<rparr>,
       error = None, warnings = Some [''Document content was empty or invalid''] \<rparr>"
  using assms by (auto simp: tipTapJsonToAst_def Let_def split: prod.splits)

text \<open>
  Claim C8. For every editor document whose content is missing, not an array, or empty,
  \<open>tipTapJsonToAst\<close> returns success with a minimal root that carries the title, the
  passage and the speaker of \<open>existingRoot\<close> and has no children, and attaches a warning.

  For a content that is missing or not an array the code does so
  (\<open>tipTapJsonToAst_degenerate\<close>). For an empty array it does not: \<open>![]\<close> is false, so the
  check that the code documents as the one for an empty or invalid content does not
  catch it; the conversion succeeds with the same root, and without a warning.
\<close>

theorem tipTapJsonToAst_empty_array_no_warning:
  "tipTapJsonToAst \<lparr> doc_content = ContentArray [] \<rparr> defaultOptions
     (Some \<lparr> r_id = ''root-7'', r_version = 3, r_updatedAt = ''t0'', title = Some ''Grace'',
             biblePassage = Some ''John 3:16'', speaker = Some ''Bob'', tags = None,
             children = [] \<rparr>)
     ''t1'' 0
   = (\<lparr> success = True,
        data = Some \<lparr> r_id = ''root-7'', r_version = 1, r_updatedAt = ''t1'',
                      title = Some ''Grace'', biblePassage = Some ''John 3:16'',
                      speaker = Some ''Bob'', tags = None, children = [] \<rparr>,
        error = None, warnings = None \<rparr>, 0)"
  by (simp add: tipTapJsonToAst_def defaultOptions_def rootIdFor_def orTrue_def orElse_def
        nonEmpty_def existing_def)

lemma convertTipTapToNode_headingLevels:
  "convertTipTapToNode opts now node n = (r, n1) \<Longrightarrow>
   headingLevels (case r of None \<Rightarrow> [] | Some d \<Rightarrow> [d]) =
     (if t_type node = ''heading'' then [levelOf node] else [])"
  by (cases node)
     (auto simp: Let_def levelOf_def convertTipTapBlockquote_def convertTipTapText_def
        convertTipTapInterjection_def split: prod.splits if_splits)

lemma tipTapLoop_later:
  "tipTapLoop opts now nodes ttl passage spk False n = (cs, ttl', passage', spk', n') \<Longrightarrow>
   ttl' = ttl \<and>
   headingLevels cs = map levelOf (filter (\<lambda>t. t_type t = ''heading'') nodes)"
proof (induction nodes arbitrary: ttl passage spk n cs ttl' passage' spk' n')
  case Nil
  then show ?case by simp
next
  case (Cons node rest)
  show ?case
  proof (cases "t_type node = ''heading''")
    case True
    obtain r n1 where c: "convertTipTapToNode opts now node n = (r, n1)"
      by (cases "convertTipTapToNode opts now node n") auto
    obtain cs2 t2 p2 s2 n2
      where l: "tipTapLoop opts now rest ttl passage spk False n1 = (cs2, t2, p2, s2, n2)"
      by (cases "tipTapLoop opts now rest ttl passage spk False n1") auto
    from convertTipTapToNode_headingLevels[OF c] True obtain d
      where d: "r = Some d" "headingLevels [d] = [levelOf node]"
      by (cases r) auto
    from Cons.prems True c l d
    have eq: "cs = d # cs2" "ttl' = t2"
      by (simp_all del: convertTipTapToNode.simps)
    from Cons.IH[OF l] have ih: "t2 = ttl"
      "headingLevels cs2 = map levelOf (filter (\<lambda>t. t_type t = ''heading'') rest)"
      by simp_all
    from d(2) have "headingLevels (d # cs2) = levelOf node # headingLevels cs2"
      by (cases d) simp_all
    with eq ih True show ?thesis by simp
  next
    case False
    show ?thesis
    proof (cases "t_type node = ''paragraph'' \<and> hasMetadataPrefix (extractText node)
                  \<or> t_type node = ''horizontalRule''")
      case True
      then consider
          (a) "t_type node = ''paragraph''"
              "prefix ''Primary Reference:'' (extractText node) \<or>
               prefix ''Primary References:'' (extractText node)"
        | (b) "t_type node = ''paragraph''"
              "\<not> (prefix ''Primary Reference:'' (extractText node) \<or>
                  prefix ''Primary References:'' (extractText node))"
              "prefix ''References from the Sermon:'' (extractText node) \<or>
               prefix ''Tags:'' (extractText node)"
        | (c) "t_type node = ''paragraph''"
              "\<not> (prefix ''Primary Reference:'' (extractText node) \<or>
                  prefix ''Primary References:'' (extractText node))"
              "\<not> (prefix ''References from the Sermon:'' (extractText node) \<or>
                  prefix ''Tags:'' (extractText node))"
              "prefix ''Speaker:'' (extractText node)"
        | (d) "t_type node = ''horizontalRule''"
        by (auto simp: hasMetadataPrefix_def)
      then show ?thesis
      proof cases
        case a
        with Cons.prems have "tipTapLoop opts now rest ttl
            (Some (removePrefix PRIMARY_REFERENCE_PATTERN (extractText node))) spk False n
            = (cs, ttl', passage', spk', n')"
          by (simp del: convertTipTapToNode.simps)
        from Cons.IH[OF this] False show ?thesis by simp
      next
        case b
        with Cons.prems have "tipTapLoop opts now rest ttl passage spk False n
            = (cs, ttl', passage', spk', n')"
          by (simp del: convertTipTapToNode.simps)
        from Cons.IH[OF this] False show ?thesis by simp
      next
        case c
        with Cons.prems have "tipTapLoop opts now rest ttl passage
            (Some (removePrefix SPEAKER_PATTERN (extractText node))) False n
            = (cs, ttl', passage', spk', n')"
          by (simp del: convertTipTapToNode.simps)
        from Cons.IH[OF this] False show ?thesis by simp
      next
        case d
        with Cons.prems have "tipTapLoop opts now rest ttl passage spk False n
            = (cs, ttl', passage', spk', n')"
          by (simp del: convertTipTapToNode.simps)
        from Cons.IH[OF this] False show ?thesis by simp
      qed
    next
      case other: False
      obtain r n1 where c: "convertTipTapToNode opts now node n = (r, n1)"
        by (cases "convertTipTapToNode opts now node n") auto
      obtain cs2 t2 p2 s2 n2
        where l: "tipTapLoop opts now rest ttl passage spk False n1 = (cs2, t2, p2, s2, n2)"
        by (cases "tipTapLoop opts now rest ttl passage spk False n1") auto
      from convertTipTapToNode_headingLevels[OF c] False
      have hl: "headingLevels (case r of None \<Rightarrow> [] | Some d \<Rightarrow> [d]) = []" by simp
      from Cons.prems False other c l
      have eq: "cs = (case r of None \<Rightarrow> [] | Some d \<Rightarrow> [d]) @ cs2" "ttl' = t2"
        by (auto simp: hasMetadataPrefix_def simp del: convertTipTapToNode.simps
            split: option.splits)
      from Cons.IH[OF l] have ih: "t2 = ttl"
        "headingLevels cs2 = map levelOf (filter (\<lambda>t. t_type t = ''heading'') rest)"
        by simp_all
      have "headingLevels cs = headingLevels cs2"
      proof (cases r)
        case None
        with eq show ?thesis by simp
      next
        case (Some d)
        with hl eq show ?thesis by (cases d) simp_all
      qed
      with eq ih False show ?thesis by simp
    qed
  qed
qed

lemma tipTapLoop_first:
  "tipTapLoop opts now (node # rest) None None None True n =
     (if isTitleHeading node
      then tipTapLoop opts now rest (Some (extractText node)) None None False n
      else tipTapLoop opts now (node # rest) None None None False n)"
  by (simp add: isTitleHeading_def nonEmpty_def del: convertTipTapToNode.simps)

text \<open>
  Claim C9. \<open>tipTapJsonToAst\<close> takes the title from a heading if and only if the heading
  is the first node of the document, has level 1 and has \<open>textAlign = 'center'\<close>: then
  the title is the text of that heading (the title of \<open>existingRoot\<close> where that text is
  empty), and every heading after it is a \<open>HeadingNode\<close> among the children of the root.
  Otherwise the title is that of \<open>existingRoot\<close>, and every heading of the document, the
  first node included, is a \<open>HeadingNode\<close> among the children of the root.
\<close>

theorem title_heading_absorbed:
  assumes "doc_content doc = ContentArray nodes"
  shows "\<exists>r'. data (fst (tipTapJsonToAst doc options existingRoot now n)) = Some r' \<and>
     (case nodes of
        [] \<Rightarrow> title r' = existing title existingRoot \<and> children r' = []
      | first # rest \<Rightarrow>
          if isTitleHeading first
          then title r' = orElse (Some (extractText first)) (existing title existingRoot) \<and>
               headingLevels (children r') =
                 map levelOf (filter (\<lambda>t. t_type t = ''heading'') rest)
          else title r' = existing title existingRoot \<and>
               headingLevels (children r') =
                 map levelOf (filter (\<lambda>t. t_type t = ''heading'') nodes))"
proof (cases nodes)
  case Nil
  with assms show ?thesis
    by (simp add: tipTapJsonToAst_def Let_def orElse_def nonEmpty_def split: prod.splits)
next
  case (Cons first rest)
  obtain cs t p s n1
    where l: "tipTapLoop options now nodes None None None True n = (cs, t, p, s, n1)"
    by (cases "tipTapLoop options now nodes None None None True n") auto
  have d: "data (fst (tipTapJsonToAst doc options existingRoot now n)) =
        Some \<lparr> r_id = fst (rootIdFor options existingRoot n1), r_version = 1,
               r_updatedAt = now,
               title = orElse t (existing title existingRoot),
               biblePassage = orElse p (existing biblePassage existingRoot),
               speaker = orElse s (existing speaker existingRoot),
               tags = None, children = cs \<rparr>"
    using assms l by (simp add: tipTapJsonToAst_def Let_def split: prod.splits)
  show ?thesis
  proof (cases "isTitleHeading first")
    case True
    with l Cons have "tipTapLoop options now rest (Some (extractText first)) None None False n
        = (cs, t, p, s, n1)"
      by (simp only: tipTapLoop_first if_True)
    from tipTapLoop_later[OF this] True Cons d show ?thesis by simp
  next
    case False
    with l Cons have "tipTapLoop options now nodes None None None False n = (cs, t, p, s, n1)"
      by (simp only: tipTapLoop_first if_False)
    from tipTapLoop_later[OF this] False Cons d show ?thesis
      by (simp add: orElse_def nonEmpty_def)
  qed
qed

text \<open>The theorem on a document of three headings of level 1: the first one, centred,
  gives the title; the second, centred too, and the third are headings among the
  children.\<close>

theorem title_heading_absorbed_witness:
  "map_option title (data (fst (tipTapJsonToAst threeHeadingsDoc defaultOptions None ''t1'' 0)))
     = Some (Some ''Grace'') \<and>
   map_option (\<lambda>r. headingLevels (children r))
     (data (fst (tipTapJsonToAst threeHeadingsDoc defaultOptions None ''t1'' 0)))
     = Some [1, 1]"
proof -
  have h: "doc_content threeHeadingsDoc = ContentArray
         [TipTapNode ''heading'' (Some [(''level'', JNum 1), (''textAlign'', JStr ''center'')])
            (Some [TipTapNode ''text'' None None (Some ''Grace'') None]) None None,
          TipTapNode ''heading'' (Some [(''level'', JNum 1), (''textAlign'', JStr ''center'')])
            (Some [TipTapNode ''text'' None None (Some ''Later'') None]) None None,
          TipTapNode ''heading'' (Some [(''level'', JNum 1)])
            (Some [TipTapNode ''text'' None None (Some ''Mine'') None]) None None]"
    by (simp add: threeHeadingsDoc_def)
  from title_heading_absorbed[OF h, of defaultOptions None "''t1''" 0]
  show ?thesis
    by (auto simp: isTitleHeading_def attr_def levelOf_def asNumber_def orElse_def
        nonEmpty_def existing_def)
qed

section \<open>Properties of the round trip through the editor tree\<close>

lemma extractText_leaf [simp]:
  "extractText (TipTapNode ty ats None (Some c) mk) = c"
  by (cases c) (simp_all add: nonEmpty_def)

lemma extractText_block [simp]:
  "extractText (TipTapNode ty ats (Some ts) None mk) = concat (map extractText ts)"
  by (simp add: nonEmpty_def)

text \<open>The text that the editor tree of a node shows is the plain text of the node,
  where the interjections are included (the default).\<close>

lemma convert_extractText:
  "isTrue (includeInterjections opts) \<Longrightarrow>
     (case convertNodeToTipTap opts d of None \<Rightarrow> plainText d = []
      | Some t \<Rightarrow> extractText t = plainText d)"
  "isTrue (includeInterjections opts) \<Longrightarrow>
     concat (map extractText (convertChildren opts ds)) = concat (map plainText ds)"
  "isTrue (includeInterjections opts) \<Longrightarrow>
     concat (map extractText (convertQuoteChildren opts ds)) = concat (map plainText ds)"
proof (induction opts d and opts ds and opts ds
    rule: convertNodeToTipTap_convertChildren_convertQuoteChildren.induct)
  case (1 opts nid v u cs)
  then show ?case by (simp add: nonEmpty_def)
next
  case (2 opts nid v u metadata cs)
  then show ?case
    by (cases "convertQuoteChildren opts cs = []") (simp_all add: Let_def nonEmpty_def)
next
  case (3 opts nid v u level cs)
  then show ?case by (simp add: nonEmpty_def)
next
  case (4 opts nid v u content marks)
  then show ?case by (simp add: nonEmpty_def)
next
  case (5 opts nid v u content metadataId)
  then show ?case by (simp add: nonEmpty_def)
next
  case (6 opts)
  then show ?case by simp
next
  case (7 opts child rest)
  then show ?case by (cases "convertNodeToTipTap opts child") simp_all
next
  case (8 opts)
  then show ?case by simp
next
  case (9 opts child rest)
  then show ?case
    by (cases "convertNodeToTipTap opts child") (simp_all add: nonEmpty_def)
qed

lemma convert_no_textAlign:
  "convertNodeToTipTap opts d = Some t \<Longrightarrow> \<not> isTitleHeading t"
  by (cases d) (auto simp: isTitleHeading_def attr_def Let_def split: if_splits)

lemma convert_type:
  "convertNodeToTipTap opts d = Some t \<Longrightarrow>
   t_type t \<noteq> ''horizontalRule'' \<and>
   (t_type t = ''paragraph'' \<longrightarrow> isMetadataParagraph d = hasMetadataPrefix (plainText d))"
  by (cases d) (auto simp: Let_def split: if_splits)

lemma quoteTextNodes_single:
  "t_type t = ''text'' \<Longrightarrow>
   \<exists>d n'. quoteTextNodes now [t] n = ([d], n') \<and>
          plainText d = (case t_text t of None \<Rightarrow> [] | Some x \<Rightarrow> x)"
  by (auto simp: Let_def convertTipTapInterjection_def split: prod.splits)

lemma quote_back_text:
  "isTrue (includeInterjections opts) \<Longrightarrow> list_all isInline ds \<Longrightarrow>
   \<exists>ds' n'. quoteParagraphs now (convertQuoteChildren opts ds) n = (ds', n') \<and>
            concat (map plainText ds') = concat (map plainText ds)"
proof (induction ds arbitrary: n)
  case Nil
  then show ?case by simp
next
  case (Cons child rest)
  show ?case
  proof (cases "convertNodeToTipTap opts child")
    case None
    with convert_extractText(1)[OF Cons.prems(1), of child] have "plainText child = []" by simp
    with None Cons show ?thesis by simp
  next
    case (Some t)
    from Cons.prems(2) have inl: "isInline child" by simp
    with Some have ty: "t_type t = ''text''" "t_content t = None"
      "(case t_text t of None \<Rightarrow> [] | Some x \<Rightarrow> x) = plainText child"
      by (cases child; auto split: if_splits)+
    from quoteTextNodes_single[OF ty(1), of now n] ty(3) obtain d n1
      where d: "quoteTextNodes now [t] n = ([d], n1)" "plainText d = plainText child"
      by auto
    from Cons.prems(2) have "list_all isInline rest" by simp
    from Cons.IH[OF Cons.prems(1) this, of n1] obtain ds' n2
      where r: "quoteParagraphs now (convertQuoteChildren opts rest) n1 = (ds', n2)"
        "concat (map plainText ds') = concat (map plainText rest)"
      by blast
    have "quoteParagraphs now (convertQuoteChildren opts (child # rest)) n = (d # ds', n2)"
      using Some ty(1) d(1) r(1) by simp
    with d(2) r(2) show ?thesis by simp
  qed
qed

lemma ensureTextNode_text:
  "concat (map plainText (fst (ensureTextNode now cs n))) = concat (map plainText cs)"
  by (simp add: ensureTextNode_def createNodeId_def)

text \<open>Converting the editor tree of a node back gives a node with the same plain
  text, whatever options the way back is given.\<close>

lemma back_text:
  "isTrue (includeInterjections opts) \<longrightarrow> validNode d \<longrightarrow>
     (\<forall>t n. convertNodeToTipTap opts d = Some t \<longrightarrow>
        (\<exists>d' n'. convertTipTapToNode opts' now t n = (Some d', n') \<and>
                 plainText d' = plainText d))"
  "isTrue (includeInterjections opts) \<longrightarrow> list_all validNode ds \<longrightarrow>
     (\<forall>n. \<exists>ds' n'. convertTipTapNodes opts' now (convertChildren opts ds) n = (ds', n') \<and>
                    concat (map plainText ds') = concat (map plainText ds))"
  "True"
proof (induction opts d and opts ds and opts ds
    rule: convertNodeToTipTap_convertChildren_convertQuoteChildren.induct)
  case (1 opts nid v u cs)
  show ?case
  proof (intro impI allI)
    fix t n
    assume inc: "isTrue (includeInterjections opts)"
      and val: "validNode (ParagraphNode nid v u cs)"
      and t: "convertNodeToTipTap opts (ParagraphNode nid v u cs) = Some t"
    from val have v: "list_all validNode cs" by simp
    from 1 inc v obtain ds' n1
      where r: "convertTipTapNodes opts' now (convertChildren opts cs) n = (ds', n1)"
        "concat (map plainText ds') = concat (map plainText cs)"
      by blast
    obtain cs' n2 where e: "ensureTextNode now ds' n1 = (cs', n2)"
      by (cases "ensureTextNode now ds' n1") auto
    with ensureTextNode_text[of now ds' n1] r(2)
    have tx: "concat (map plainText cs') = concat (map plainText cs)" by simp
    from t r(1) e show "\<exists>d' n'. convertTipTapToNode opts' now t n = (Some d', n') \<and>
        plainText d' = plainText (ParagraphNode nid v u cs)"
      using tx by (auto simp: Let_def split: prod.splits)
  qed
next
  case (2 opts nid v u metadata cs)
  show ?case
  proof (intro impI allI)
    fix t n
    assume inc: "isTrue (includeInterjections opts)"
      and val: "validNode (QuoteBlockNode nid v u metadata cs)"
      and t: "convertNodeToTipTap opts (QuoteBlockNode nid v u metadata cs) = Some t"
    from val have inl: "list_all isInline cs" by simp
    from quote_back_text[OF inc inl, of now n] obtain ds' n1
      where r: "quoteParagraphs now (convertQuoteChildren opts cs) n = (ds', n1)"
        "concat (map plainText ds') = concat (map plainText cs)"
      by auto
    have c: "\<exists>ds'' n1'. quoteParagraphs now
          (if length (convertQuoteChildren opts cs) > 0 then convertQuoteChildren opts cs
           else [TipTapNode ''paragraph'' None (Some []) None None]) n = (ds'', n1') \<and>
        concat (map plainText ds'') = concat (map plainText cs)"
    proof (cases "convertQuoteChildren opts cs = []")
      case True
      with r show ?thesis by simp
    next
      case False
      with r show ?thesis by simp
    qed
    then obtain ds'' n1' where q: "quoteParagraphs now
          (if length (convertQuoteChildren opts cs) > 0 then convertQuoteChildren opts cs
           else [TipTapNode ''paragraph'' None (Some []) None None]) n = (ds'', n1')"
        "concat (map plainText ds'') = concat (map plainText cs)"
      by blast
    from t have tt: "t_type t = ''blockquote''"
      "t_content t = Some
          (if length (convertQuoteChildren opts cs) > 0 then convertQuoteChildren opts cs
           else [TipTapNode ''paragraph'' None (Some []) None None])"
      by (auto simp: Let_def)
    show "\<exists>d' n'. convertTipTapToNode opts' now t n = (Some d', n') \<and>
        plainText d' = plainText (QuoteBlockNode nid v u metadata cs)"
      using tt q by (auto simp: Let_def convertTipTapBlockquote_def split: prod.splits)
  qed
next
  case (3 opts nid v u level cs)
  show ?case
  proof (intro impI allI)
    fix t n
    assume inc: "isTrue (includeInterjections opts)"
      and val: "validNode (HeadingNode nid v u level cs)"
      and t: "convertNodeToTipTap opts (HeadingNode nid v u level cs) = Some t"
    from val have v: "list_all validNode cs" by simp
    from 3 inc v obtain ds' n1
      where r: "convertTipTapNodes opts' now (convertChildren opts cs) n = (ds', n1)"
        "concat (map plainText ds') = concat (map plainText cs)"
      by blast
    obtain cs' n2 where e: "ensureTextNode now ds' n1 = (cs', n2)"
      by (cases "ensureTextNode now ds' n1") auto
    with ensureTextNode_text[of now ds' n1] r(2)
    have tx: "concat (map plainText cs') = concat (map plainText cs)" by simp
    from t r(1) e show "\<exists>d' n'. convertTipTapToNode opts' now t n = (Some d', n') \<and>
        plainText d' = plainText (HeadingNode nid v u level cs)"
      using tx by (auto simp: Let_def split: prod.splits)
  qed
next
  case (4 opts nid v u content marks)
  show ?case
    by (auto simp: Let_def convertTipTapText_def convertTipTapInterjection_def
        split: prod.splits if_splits)
next
  case (5 opts nid v u content metadataId)
  show ?case
    by (auto simp: Let_def convertTipTapText_def convertTipTapInterjection_def
        hasInterjectionMark_def split: prod.splits if_splits)
next
  case (6 opts)
  show ?case by simp
next
  case (7 opts child rest)
  show ?case
  proof (intro impI allI)
    fix n
    assume inc: "isTrue (includeInterjections opts)"
      and val: "list_all validNode (child # rest)"
    show "\<exists>ds' n'. convertTipTapNodes opts' now (convertChildren opts (child # rest)) n
                      = (ds', n') \<and>
                    concat (map plainText ds') = concat (map plainText (child # rest))"
    proof (cases "convertNodeToTipTap opts child")
      case None
      with convert_extractText(1)[OF inc, of child] have e: "plainText child = []" by simp
      from val have v: "list_all validNode rest" by simp
      from 7(2)[OF None] inc v obtain ds' n'
        where "convertTipTapNodes opts' now (convertChildren opts rest) n = (ds', n')"
          "concat (map plainText ds') = concat (map plainText rest)"
        by blast
      with None e show ?thesis by simp
    next
      case (Some t)
      from val have v: "validNode child" "list_all validNode rest" by simp_all
      from 7(1) inc v(1) Some obtain d' n1
        where d: "convertTipTapToNode opts' now t n = (Some d', n1)"
          "plainText d' = plainText child"
        by blast
      from 7(3)[OF Some] inc v(2) obtain ds' n2
        where r: "convertTipTapNodes opts' now (convertChildren opts rest) n1 = (ds', n2)"
          "concat (map plainText ds') = concat (map plainText rest)"
        by blast
      have "convertTipTapNodes opts' now (convertChildren opts (child # rest)) n
              = (d' # ds', n2)"
        using Some d(1) r(1) by (simp del: convertTipTapToNode.simps)
      with d(2) r(2) show ?thesis by simp
    qed
  qed
next
  case (8 opts)
  show ?case by simp
next
  case (9 opts child rest)
  show ?case by simp
qed

text \<open>One turn of the loop of \<open>tipTapJsonToAst\<close> on a node that is content.\<close>

lemma tipTapLoop_content_node:
  assumes "\<not> isTitleHeading node"
    and "t_type node = ''paragraph'' \<longrightarrow> \<not> hasMetadataPrefix (extractText node)"
    and "t_type node \<noteq> ''horizontalRule''"
  shows "tipTapLoop opts now (node # rest) ttl passage spk isFirst n =
     (let (converted, n1) = convertTipTapToNode opts now node n;
          (cs, ttl', passage', spk', n2) = tipTapLoop opts now rest ttl passage spk False n1
      in (case converted of None \<Rightarrow> (cs, ttl', passage', spk', n2)
          | Some d \<Rightarrow> (d # cs, ttl', passage', spk', n2)))"
  using assms
  by (auto simp: isTitleHeading_def hasMetadataPrefix_def simp del: convertTipTapToNode.simps)

text \<open>The loop of \<open>tipTapJsonToAst\<close> on the editor trees of a list of valid nodes, none
  of them a paragraph with a metadata prefix: no node is taken for metadata, and the
  children it builds have the plain text of the list.\<close>

lemma tipTapLoop_children:
  assumes inc: "isTrue (includeInterjections opts)"
  shows "list_all validNode ds \<Longrightarrow> \<forall>d \<in> set ds. \<not> isMetadataParagraph d \<Longrightarrow>
     \<exists>cs n'. tipTapLoop opts' now (convertChildren opts ds) ttl passage spk isFirst n
                = (cs, ttl, passage, spk, n') \<and>
             concat (map plainText cs) = concat (map plainText ds)"
proof (induction ds arbitrary: isFirst n)
  case Nil
  then show ?case by simp
next
  case (Cons child rest)
  from Cons.prems have v: "validNode child" "list_all validNode rest"
    and m: "\<not> isMetadataParagraph child" "\<forall>d \<in> set rest. \<not> isMetadataParagraph d"
    by simp_all
  show ?case
  proof (cases "convertNodeToTipTap opts child")
    case None
    with convert_extractText(1)[OF inc, of child] have "plainText child = []" by simp
    with None Cons.IH[OF v(2) m(2), of isFirst n] show ?thesis by simp
  next
    case (Some t)
    from convert_no_textAlign[OF Some] have nt: "\<not> isTitleHeading t" .
    from convert_type[OF Some] m(1) convert_extractText(1)[OF inc, of child] Some
    have nh: "t_type t \<noteq> ''horizontalRule''"
      and np: "t_type t = ''paragraph'' \<longrightarrow> \<not> hasMetadataPrefix (extractText t)"
      by auto
    from back_text(1)[of opts child opts' now] inc v(1) Some obtain d' n1
      where d: "convertTipTapToNode opts' now t n = (Some d', n1)"
        "plainText d' = plainText child"
      by blast
    from Cons.IH[OF v(2) m(2), of False n1] obtain cs n2
      where r: "tipTapLoop opts' now (convertChildren opts rest) ttl passage spk False n1
                  = (cs, ttl, passage, spk, n2)"
        "concat (map plainText cs) = concat (map plainText rest)"
      by blast
    have "tipTapLoop opts' now (convertChildren opts (child # rest)) ttl passage spk isFirst n
            = (d' # cs, ttl, passage, spk, n2)"
      using Some d(1) r(1)
      by (simp add: tipTapLoop_content_node[OF nt np nh]
          del: convertTipTapToNode.simps tipTapLoop.simps)
    with d(2) r(2) show ?thesis by simp
  qed
qed

lemma tipTapLoop_placeholder:
  "\<exists>cs n'. tipTapLoop opts' now [TipTapNode ''paragraph'' None (Some []) None None]
              ttl passage spk isFirst n = (cs, ttl, passage, spk, n') \<and>
           concat (map plainText cs) = []"
proof -
  let ?p = "TipTapNode ''paragraph'' None (Some []) None None"
  have a: "\<not> isTitleHeading ?p" by (simp add: isTitleHeading_def)
  have b: "t_type ?p = ''paragraph'' \<longrightarrow> \<not> hasMetadataPrefix (extractText ?p)"
    by (simp add: hasMetadataPrefix_def nonEmpty_def)
  have c: "t_type ?p \<noteq> ''horizontalRule''" by simp
  obtain d n1 where d: "convertTipTapToNode opts' now ?p n = (Some d, n1)"
    "plainText d = []"
    by (cases "createNodeId n"; cases "preservedOrFresh opts' None (snd (createNodeId n))")
       (simp add: Let_def ensureTextNode_def)
  show ?thesis
    using d by (simp add: tipTapLoop_content_node[OF a b c] del: convertTipTapToNode.simps)
qed

text \<open>The same for the whole content that \<open>astToTipTapJson\<close> emits: the title heading
  and the passage paragraph are taken as metadata, and the children have the plain text
  of the document.\<close>

lemma tipTapLoop_document:
  assumes inc: "isTrue (includeInterjections opts)"
    and val: "list_all validNode ds"
    and nom: "\<forall>d \<in> set ds. \<not> isMetadataParagraph d"
  shows "\<exists>cs ttl passage spk n'.
     tipTapLoop opts' now
       (let content =
          (case t0 of Some t \<Rightarrow>
             if t \<noteq> []
             then [TipTapNode ''heading''
                     (Some [(''level'', JNum 1), (''textAlign'', JStr ''center'')])
                     (Some [TipTapNode ''text'' None None (Some t) None]) None None]
             else []
           | None \<Rightarrow> []) @
          (case p0 of Some p \<Rightarrow>
             if p \<noteq> []
             then [TipTapNode ''paragraph'' None
                     (Some [TipTapNode ''text'' None None (Some ''Primary Reference: '')
                              (Some [\<lparr> mark_type = ''bold'', mark_attrs = None \<rparr>]),
                            TipTapNode ''text'' None None (Some p) None])
                     None None]
             else []
           | None \<Rightarrow> []) @
          convertChildren opts ds
        in if length content = 0
           then [TipTapNode ''paragraph'' None (Some []) None None] else content)
       None None None True n = (cs, ttl, passage, spk, n') \<and>
     concat (map plainText cs) = concat (map plainText ds)"
proof -
  have ch: "\<exists>cs n'. tipTapLoop opts' now (convertChildren opts ds) ttl passage spk isFirst n
                = (cs, ttl, passage, spk, n') \<and>
             concat (map plainText cs) = concat (map plainText ds)"
    for ttl passage spk isFirst n
    by (rule tipTapLoop_children[OF inc val nom])
  have empty: "concat (map plainText ds) = []" if "convertChildren opts ds = []"
    using convert_extractText(2)[OF inc, of ds] that by simp
  have pl: "\<exists>cs n'. tipTapLoop opts' now
       (if length (convertChildren opts ds) = 0
        then [TipTapNode ''paragraph'' None (Some []) None None]
        else convertChildren opts ds) None None None True n = (cs, None, None, None, n') \<and>
     concat (map plainText cs) = concat (map plainText ds)"
  proof (cases "convertChildren opts ds = []")
    case True
    from empty[OF True] have e: "concat (map plainText ds) = []" .
    from tipTapLoop_placeholder[of opts' now None None None True n] obtain cs n'
      where c1: "tipTapLoop opts' now [TipTapNode ''paragraph'' None (Some []) None None]
               None None None True n = (cs, None, None, None, n')"
        and c2: "concat (map plainText cs) = []"
      by blast
    have c3: "concat (map plainText cs) = concat (map plainText ds)"
      by (simp only: c2 e)
    have c4: "(if length (convertChildren opts ds) = 0
        then [TipTapNode ''paragraph'' None (Some []) None None]
        else convertChildren opts ds) = [TipTapNode ''paragraph'' None (Some []) None None]"
      using True by simp
    show ?thesis unfolding c4 using c1 c3 by blast
  next
    case False
    then have c4: "(if length (convertChildren opts ds) = 0
        then [TipTapNode ''paragraph'' None (Some []) None None]
        else convertChildren opts ds) = convertChildren opts ds"
      by simp
    show ?thesis unfolding c4 by (rule ch)
  qed
  let ?H = "\<lambda>t. TipTapNode ''heading''
                     (Some [(''level'', JNum 1), (''textAlign'', JStr ''center'')])
                     (Some [TipTapNode ''text'' None None (Some t) None]) None None"
  let ?B = "\<lambda>p. TipTapNode ''paragraph'' None
                     (Some [TipTapNode ''text'' None None (Some ''Primary Reference: '')
                              (Some [\<lparr> mark_type = ''bold'', mark_attrs = None \<rparr>]),
                            TipTapNode ''text'' None None (Some p) None])
                     None None"
  let ?C = "convertChildren opts ds"
  let ?ph = "TipTapNode ''paragraph'' None (Some []) None None"
  define T where "T = (case t0 of Some t \<Rightarrow> if t \<noteq> [] then [?H t] else [] | None \<Rightarrow> [])"
  define B where "B = (case p0 of Some p \<Rightarrow> if p \<noteq> [] then [?B p] else [] | None \<Rightarrow> [])"
  have Tc: "T = [] \<or> (\<exists>t. t \<noteq> [] \<and> T = [?H t])"
    by (auto simp: T_def split: option.splits)
  have Bc: "B = [] \<or> (\<exists>p. B = [?B p])"
    by (auto simp: B_def split: option.splits)
  have stepT: "tipTapLoop opts' now (?H t # rest) None None None True n =
               tipTapLoop opts' now rest (Some t) None None False n" if "t \<noteq> []" for t rest
    using that by (simp add: attr_def nonEmpty_def del: convertTipTapToNode.simps)
  have stepB: "tipTapLoop opts' now (?B p # rest) ttl None None isFirst n =
               tipTapLoop opts' now rest ttl
                 (Some (removePrefix PRIMARY_REFERENCE_PATTERN (''Primary Reference: '' @ p)))
                 None False n" for p rest ttl isFirst
    by (simp add: nonEmpty_def del: convertTipTapToNode.simps)
  have goal: "\<exists>cs ttl passage spk n'.
     tipTapLoop opts' now
       (if length (T @ B @ ?C) = 0 then [?ph] else T @ B @ ?C)
       None None None True n = (cs, ttl, passage, spk, n') \<and>
     concat (map plainText cs) = concat (map plainText ds)"
  proof -
    from Tc Bc consider
        (tb) t p where "t \<noteq> []" "T = [?H t]" "B = [?B p]"
      | (t) t where "t \<noteq> []" "T = [?H t]" "B = []"
      | (b) p where "T = []" "B = [?B p]"
      | (none) "T = []" "B = []"
      by blast
    then show ?thesis
    proof cases
      case tb
      have "tipTapLoop opts' now (if length (T @ B @ ?C) = 0 then [?ph] else T @ B @ ?C)
              None None None True n =
            tipTapLoop opts' now ?C (Some t)
              (Some (removePrefix PRIMARY_REFERENCE_PATTERN (''Primary Reference: '' @ p)))
              None False n"
        by (simp add: tb stepT[OF tb(1)] stepB
            del: tipTapLoop.simps convertTipTapToNode.simps)
      with ch[of "Some t" "Some (removePrefix PRIMARY_REFERENCE_PATTERN
                               (''Primary Reference: '' @ p))" None False n]
      show ?thesis by metis
    next
      case t
      have "tipTapLoop opts' now (if length (T @ B @ ?C) = 0 then [?ph] else T @ B @ ?C)
              None None None True n =
            tipTapLoop opts' now ?C (Some t) None None False n"
        by (simp add: t stepT[OF t(1)] del: tipTapLoop.simps convertTipTapToNode.simps)
      with ch[of "Some t" None None False n] show ?thesis by metis
    next
      case b
      have "tipTapLoop opts' now (if length (T @ B @ ?C) = 0 then [?ph] else T @ B @ ?C)
              None None None True n =
            tipTapLoop opts' now ?C None
              (Some (removePrefix PRIMARY_REFERENCE_PATTERN (''Primary Reference: '' @ p)))
              None False n"
        by (simp add: b stepB del: tipTapLoop.simps convertTipTapToNode.simps)
      with ch[of None "Some (removePrefix PRIMARY_REFERENCE_PATTERN
                               (''Primary Reference: '' @ p))" None False n]
      show ?thesis by metis
    next
      case none
      have "tipTapLoop opts' now (if length (T @ B @ ?C) = 0 then [?ph] else T @ B @ ?C)
              None None None True n =
            tipTapLoop opts' now (if length ?C = 0 then [?ph] else ?C) None None None True n"
        by (simp only: none append_Nil)
      with pl show ?thesis by metis
    qed
  qed
  then show ?thesis unfolding Let_def T_def B_def .
qed

text \<open>
  Claim C1, as amended. For every valid root (non-empty ids, the children of a quote
  block text and interjection nodes) none of whose top-level paragraphs has a text that
  starts with \<open>Primary Reference:\<close>, \<open>Primary References:\<close>,
  \<open>References from the Sermon:\<close>, \<open>Tags:\<close> or \<open>Speaker:\<close>, converting it with
  \<open>astToTipTapJson\<close> and back with \<open>tipTapJsonToAst\<close> (the root as \<open>existingRoot\<close>, default
  options) succeeds and yields a root whose id is that of the root and whose plain text
  is that of the root. (The ids of the structural nodes are left out of the statement.)
\<close>

theorem roundTrip_text:
  assumes "validRoot r" and "\<forall>d \<in> set (children r). \<not> isMetadataParagraph d"
  shows "success (roundTrip r now n) \<and>
     (\<exists>r'. data (roundTrip r now n) = Some r' \<and> r_id r' = r_id r \<and>
           rootText r' = rootText r)"
proof -
  let ?opts = "\<lparr> preserveIds = Some True, includeMetadata = Some True,
                  includeInterjections = Some True \<rparr>"
  have inc: "isTrue (includeInterjections ?opts)" by (simp add: isTrue_def)
  from assms(1) have val: "list_all validNode (children r)" and rid: "r_id r \<noteq> []"
    by (simp_all add: validRoot_def)
  from tipTapLoop_document[OF inc val assms(2), of defaultOptions now "title r"
      "biblePassage r" n]
  obtain cs ttl passage spk n'
    where l: "tipTapLoop defaultOptions now
       (let content =
          (case title r of Some t \<Rightarrow>
             if t \<noteq> []
             then [TipTapNode ''heading''
                     (Some [(''level'', JNum 1), (''textAlign'', JStr ''center'')])
                     (Some [TipTapNode ''text'' None None (Some t) None]) None None]
             else []
           | None \<Rightarrow> []) @
          (case biblePassage r of Some p \<Rightarrow>
             if p \<noteq> []
             then [TipTapNode ''paragraph'' None
                     (Some [TipTapNode ''text'' None None (Some ''Primary Reference: '')
                              (Some [\<lparr> mark_type = ''bold'', mark_attrs = None \<rparr>]),
                            TipTapNode ''text'' None None (Some p) None])
                     None None]
             else []
           | None \<Rightarrow> []) @
          convertChildren ?opts (children r)
        in if length content = 0
           then [TipTapNode ''paragraph'' None (Some []) None None] else content)
       None None None True n = (cs, ttl, passage, spk, n')"
      and tx: "concat (map plainText cs) = concat (map plainText (children r))"
    by blast
  have "roundTrip r now n =
     \<lparr> success = True,
       data = Some \<lparr> r_id = r_id r, r_version = 1, r_updatedAt = now,
                     title = orElse ttl (title r),
                     biblePassage = orElse passage (biblePassage r),
                     speaker = orElse spk (speaker r),
                     tags = None, children = cs \<rparr>,
       error = None, warnings = None \<rparr>"
    using l rid
    by (simp add: roundTrip_def roundTripWith_def astToTipTapJson_def tipTapJsonToAst_def
        defaultOptions_def
        orTrue_def rootIdFor_def existing_def Let_def
        del: convertTipTapToNode.simps tipTapLoop.simps)
  with tx show ?thesis by (simp add: rootText_def)
qed

text \<open>The theorem on the example document.\<close>

theorem roundTrip_text_witness:
  "validRoot sermonRoot \<and> filter isMetadataParagraph (children sermonRoot) = [] \<and>
   success (roundTrip sermonRoot ''t1'' 0) \<and>
   map_option r_id (data (roundTrip sermonRoot ''t1'' 0)) = Some ''root-9'' \<and>
   map_option rootText (data (roundTrip sermonRoot ''t1'' 0)) = Some ''Hello amenPartFor God''"
proof -
  have v: "validRoot sermonRoot" by code_simp
  have m: "\<forall>d \<in> set (children sermonRoot). \<not> isMetadataParagraph d" by code_simp
  have t: "rootText sermonRoot = ''Hello amenPartFor God''" by code_simp
  have i: "r_id sermonRoot = ''root-9''" by code_simp
  from roundTrip_text[OF v m, of "''t1''" 0] obtain r'
    where s: "success (roundTrip sermonRoot ''t1'' 0)"
      and r: "data (roundTrip sermonRoot ''t1'' 0) = Some r'" "r_id r' = r_id sermonRoot"
        "rootText r' = rootText sermonRoot"
    by blast
  from r have "map_option r_id (data (roundTrip sermonRoot ''t1'' 0)) = Some ''root-9''"
    "map_option rootText (data (roundTrip sermonRoot ''t1'' 0)) = Some ''Hello amenPartFor God''"
    by (simp_all only: option.map i t)
  moreover from m have "filter isMetadataParagraph (children sermonRoot) = []"
    by (simp only: filter_empty_conv)
  ultimately show ?thesis using v s by (intro conjI)
qed

text \<open>Claim C1 as stated fails on a document whose paragraph starts with \<open>Speaker:\<close>:
  the way back takes the paragraph for the speaker line, so the paragraph and its text
  are gone from the children.\<close>

theorem roundTrip_metadata_prefix_counterexample:
  "validRoot speakerLineRoot \<and>
   rootText speakerLineRoot = ''Speaker: Bob'' \<and>
   rootStructuralIds speakerLineRoot = [(''paragraph'', ''p1'')] \<and>
   map_option rootText (data (roundTrip speakerLineRoot ''t1'' 0)) = Some [] \<and>
   map_option rootStructuralIds (data (roundTrip speakerLineRoot ''t1'' 0)) = Some []"
  by code_simp

text \<open>The ids of the structural nodes. \<open>tipTapJsonToAst\<close> gives its own \<open>preserveIds\<close> the
  default \<open>true\<close> and hands the options object on without it, so with default options
  the nodes of the way back get fresh ids; with \<open>preserveIds: true\<close> spelled out they keep
  the ids that the editor tree carries.\<close>

lemma roundTrip_default_options_fresh_ids:
  "rootStructuralIds sermonRoot =
     [(''paragraph'', ''p1''), (''heading'', ''h1''), (''quote_block'', ''q1'')] \<and>
   map_option rootStructuralIds (data (roundTrip sermonRoot ''t1'' 0)) =
     Some [(''paragraph'', ''node-1''), (''heading'', ''node-3''), (''quote_block'', ''node-5'')]"
  by code_simp

lemma roundTrip_explicit_preserveIds_keeps_ids:
  "map_option rootStructuralIds
     (data (roundTripWith
        \<lparr> preserveIds = Some True, includeMetadata = None, includeInterjections = None \<rparr>
        sermonRoot ''t1'' 0)) =
     Some [(''paragraph'', ''p1''), (''heading'', ''h1''), (''quote_block'', ''q1'')]"
  by code_simp

end
